theory Spec2Isabelle
  imports Complex_Main "HOL-Library.Sublist" "HOL-Library.AList"
begin

section \<open>Python values\<close>

text \<open>
  A Python \<open>str\<close> is a sequence of Unicode code points; it is modelled as the list of
  those code points. The Chinese literals of the source are written out below as
  code-point lists, each next to its reading.
\<close>

type_synonym pystr = "nat list"

subsection \<open>Floats\<close>

text \<open>
  A Python \<open>float\<close> is an IEEE double: a finite number, one of the two infinities, or
  NaN. \<open>Finite x\<close> stands for the double whose value is the real \<open>x\<close>. The two zeros
  are the one value \<open>Finite 0\<close>: \<open>==\<close>, \<open>>\<close>, \<open>hash\<close>, truth and \<open>+\<close> treat
  them alike, and only the printed sign tells them apart.
\<close>

datatype pyfloat = Finite real | PosInf | NegInf | NaN

text \<open>\<open>a > b\<close> and \<open>a == b\<close> on floats: every comparison with NaN is false.\<close>

fun fgt :: "pyfloat \<Rightarrow> pyfloat \<Rightarrow> bool" where
  "fgt NaN b = False"
| "fgt a NaN = False"
| "fgt (Finite x) (Finite y) = (y < x)"
| "fgt (Finite x) PosInf = False"
| "fgt (Finite x) NegInf = True"
| "fgt PosInf PosInf = False"
| "fgt PosInf b = True"
| "fgt NegInf b = False"

definition float_eq :: "pyfloat \<Rightarrow> pyfloat \<Rightarrow> bool" where
  "float_eq a b = (a \<noteq> NaN \<and> a = b)"

subsection \<open>JSON values and exceptions\<close>

text \<open>
  The values \<open>json.loads\<close> builds: \<open>None\<close>, \<open>bool\<close>, \<open>int\<close> (unbounded), \<open>float\<close>
  (with \<open>NaN\<close>, \<open>Infinity\<close> and \<open>-Infinity\<close>, which \<open>json.loads\<close> accepts), \<open>str\<close>,
  \<open>list\<close> and \<open>dict\<close>. A \<open>dict\<close> is an association list read with \<open>map_of\<close>, so
  that an entry hides any later entry with its key.
\<close>

datatype json =
    JNull
  | JBool bool
  | JInt int
  | JFloat pyfloat
  | JStr pystr
  | JList "json list"
  | JObj "(pystr \<times> json) list"

text \<open>
  The exceptions. \<open>Encoder_recursion indent\<close> is the \<open>RecursionError\<close> that
  \<open>json.dumps\<close> raises on a value nested too deeply; its message is that of the encoder
  in use, the C one when \<open>indent\<close> is \<open>None\<close> and the Python one otherwise.
\<close>

datatype py_error =
    AttributeError
  | TypeError
  | ValueError
  | KeyError
  | OverflowError
  | JSONDecodeError
  | RecursionError
  | Encoder_recursion "nat option"

text \<open>
  What a call reads from outside its arguments:
  \<^item> \<open>json.loads\<close>, which returns a value or raises (\<open>JSONDecodeError\<close> on malformed
    text; also, for instance, \<open>RecursionError\<close> on text nested too deeply);
  \<^item> the conversion \<open>float(s)\<close> of a string (\<open>None\<close> stands for \<open>ValueError\<close>);
  \<^item> the double nearest to a real number, an infinity when the number is beyond the
    range of the doubles;
  \<^item> the date \<open>datetime.now().strftime("%Y-%m-%d")\<close>, taken to be the same at every
    item of one call;
  \<^item> the nesting depth up to which \<open>json.dumps\<close> can encode a value at the place of
    the call, with the given \<open>indent\<close>: it depends on the encoder, on the recursion limit
    of the interpreter and on the depth of the call stack.
\<close>

record env =
  loads :: "pystr \<Rightarrow> py_error + json"
  str_to_float :: "pystr \<Rightarrow> pyfloat option"
  nearest_double :: "real \<Rightarrow> pyfloat"
  today :: pystr
  encoder_room :: "nat option \<Rightarrow> nat"

text \<open>
  Rounding to a double. Every integer of magnitude at most \<open>2\<^sup>5\<^sup>3\<close> is a double;
  any other number is rounded as the environment says.
\<close>

definition round_double :: "env \<Rightarrow> real \<Rightarrow> pyfloat" where
  "round_double E x =
    (if of_int \<lfloor>x\<rfloor> = x \<and> \<bar>x\<bar> \<le> 2 ^ 53 then Finite x else nearest_double E x)"

text \<open>\<open>a + b\<close> on floats: it never raises; an overflow gives an infinity.\<close>

fun fadd :: "env \<Rightarrow> pyfloat \<Rightarrow> pyfloat \<Rightarrow> pyfloat" where
  "fadd E NaN b = NaN"
| "fadd E a NaN = NaN"
| "fadd E PosInf NegInf = NaN"
| "fadd E NegInf PosInf = NaN"
| "fadd E PosInf b = PosInf"
| "fadd E a PosInf = PosInf"
| "fadd E NegInf b = NegInf"
| "fadd E a NegInf = NegInf"
| "fadd E (Finite x) (Finite y) = round_double E (x + y)"

text \<open>\<open>d.get(k, default)\<close>\<close>

definition dict_get :: "(pystr \<times> json) list \<Rightarrow> pystr \<Rightarrow> json \<Rightarrow> json" where
  "dict_get d k dflt = (case map_of d k of None \<Rightarrow> dflt | Some v \<Rightarrow> v)"

text \<open>Truth value of an object, as \<open>not x\<close> reads it.\<close>

fun truthy :: "json \<Rightarrow> bool" where
  "truthy JNull = False"
| "truthy (JBool b) = b"
| "truthy (JInt n) = (n \<noteq> 0)"
| "truthy (JFloat x) = (x \<noteq> Finite 0)"
| "truthy (JStr s) = (s \<noteq> [])"
| "truthy (JList xs) = (xs \<noteq> [])"
| "truthy (JObj kvs) = (kvs \<noteq> [])"

text \<open>
  Dictionary keys. A number is a key by its value: \<open>True\<close>, \<open>1\<close> and \<open>1.0\<close> are
  equal and hash alike, and an \<open>int\<close> equals a \<open>float\<close> exactly when their values are
  the same. NaN is one key: \<open>json.loads\<close> returns the same NaN object each time, and a
  dictionary finds an object that is already a key. A \<open>list\<close> or a \<open>dict\<close> is
  unhashable and using it as a key raises \<open>TypeError\<close>.
\<close>

datatype pykey = KNone | KNum pyfloat | KStr pystr

fun py_hashkey :: "json \<Rightarrow> py_error + pykey" where
  "py_hashkey JNull = Inr KNone"
| "py_hashkey (JBool b) = Inr (KNum (Finite (if b then 1 else 0)))"
| "py_hashkey (JInt n) = Inr (KNum (Finite (of_int n)))"
| "py_hashkey (JFloat x) = Inr (KNum x)"
| "py_hashkey (JStr s) = Inr (KStr s)"
| "py_hashkey (JList xs) = Inl TypeError"
| "py_hashkey (JObj kvs) = Inl TypeError"

text \<open>
  \<open>float(x)\<close>. An \<open>int\<close> is rounded to the nearest double, and \<open>OverflowError\<close> is
  raised when it is beyond the range of the doubles.
\<close>

fun py_float :: "env \<Rightarrow> json \<Rightarrow> py_error + pyfloat" where
  "py_float E (JFloat x) = Inr x"
| "py_float E (JInt n) =
     (case round_double E (of_int n) of
        PosInf \<Rightarrow> Inl OverflowError
      | NegInf \<Rightarrow> Inl OverflowError
      | x \<Rightarrow> Inr x)"
| "py_float E (JBool b) = Inr (Finite (if b then 1 else 0))"
| "py_float E (JStr s) = (case str_to_float E s of None \<Rightarrow> Inl ValueError | Some x \<Rightarrow> Inr x)"
| "py_float E JNull = Inl TypeError"
| "py_float E (JList xs) = Inl TypeError"
| "py_float E (JObj kvs) = Inl TypeError"

text \<open>
  \<open>for x in v\<close>: a list gives its elements, a dict its keys, a string its characters;
  anything else is not iterable. \<open>len(v)\<close> is the number of values so obtained.
\<close>

fun py_iter :: "json \<Rightarrow> py_error + json list" where
  "py_iter (JList xs) = Inr xs"
| "py_iter (JObj kvs) = Inr (map JStr (remdups (map fst kvs)))"
| "py_iter (JStr s) = Inr (map (\<lambda>c. JStr [c]) s)"
| "py_iter JNull = Inl TypeError"
| "py_iter (JBool b) = Inl TypeError"
| "py_iter (JInt n) = Inl TypeError"
| "py_iter (JFloat x) = Inl TypeError"

text \<open>How deeply the lists and dictionaries of a value are nested.\<close>

fun json_depth :: "json \<Rightarrow> nat" where
  "json_depth (JList xs) = Suc (fold max (map json_depth xs) 0)"
| "json_depth (JObj kvs) = Suc (fold max (map (\<lambda>kv. json_depth (snd kv)) kvs) 0)"
| "json_depth v = 0"


section \<open>The finance agent\<close>

subsection \<open>Reimbursement rules\<close>

text \<open>The dictionary keys and category names of \<open>finace_server/agent.py\<close>.\<close>

definition k_category :: pystr where \<comment> \<open>lei bie\<close>
  "k_category = [31867, 21035]"
definition k_amount :: pystr where \<comment> \<open>jin e\<close>
  "k_amount = [37329, 39069]"
definition k_date :: pystr where \<comment> \<open>ri qi\<close>
  "k_date = [26085, 26399]"
definition k_has_invoice :: pystr where \<comment> \<open>shi fou you fa piao\<close>
  "k_has_invoice = [26159, 21542, 26377, 21457, 31080]"
definition c_transport :: pystr where \<comment> \<open>jiao tong fei\<close>
  "c_transport = [20132, 36890, 36153]"
definition c_meals :: pystr where \<comment> \<open>can yin fei\<close>
  "c_meals = [39184, 39278, 36153]"
definition c_lodging :: pystr where \<comment> \<open>zhu su fei\<close>
  "c_lodging = [20303, 23487, 36153]"
definition c_office :: pystr where \<comment> \<open>ban gong yong pin\<close>
  "c_office = [21150, 20844, 29992, 21697]"
definition c_other :: pystr where \<comment> \<open>qi ta\<close>
  "c_other = [20854, 20182]"
definition k_expenses :: pystr where \<comment> \<open>expenses\<close>
  "k_expenses = [101, 120, 112, 101, 110, 115, 101, 115]"
definition k_compliant :: pystr where \<comment> \<open>he gui\<close>
  "k_compliant = [21512, 35268]"
definition k_reasons :: pystr where \<comment> \<open>yuan yin\<close>
  "k_reasons = [21407, 22240]"

lemmas finance_names =
  k_category_def k_amount_def k_date_def k_has_invoice_def k_expenses_def
  k_compliant_def k_reasons_def
  c_transport_def c_meals_def c_lodging_def c_office_def c_other_def

text \<open>
  One entry of \<open>self.reimbursement_rules\<close>: the cap (a float literal, each one an
  integer and so a double), whether an invoice is needed, the
  daily count limit (meals only) and the extra-approval flag (other only). The remark
  texts of the source are not read by any code and are left out.
\<close>

record rule =
  cap :: pyfloat
  needs_invoice :: bool
  daily_limit :: "nat option"
  extra_approval :: bool

definition reimbursement_rules :: "(pystr \<times> rule) list" where
  "reimbursement_rules =
    [(c_transport, \<lparr>cap = Finite 300, needs_invoice = True, daily_limit = None, extra_approval = False\<rparr>),
     (c_meals, \<lparr>cap = Finite 100, needs_invoice = True, daily_limit = Some 3, extra_approval = False\<rparr>),
     (c_lodging, \<lparr>cap = Finite 500, needs_invoice = True, daily_limit = None, extra_approval = False\<rparr>),
     (c_office, \<lparr>cap = Finite 200, needs_invoice = True, daily_limit = None, extra_approval = False\<rparr>),
     (c_other, \<lparr>cap = Finite 100, needs_invoice = True, daily_limit = None, extra_approval = True\<rparr>)]"

text \<open>
  \<open>if category not in self.reimbursement_rules: category = "qi ta"\<close>. The membership
  test hashes the category, so a list or a dict raises; a value that is no string is
  equal to no key.
\<close>

fun resolve_category :: "json \<Rightarrow> py_error + pystr" where
  "resolve_category (JStr s) =
     Inr (if s \<in> set (map fst reimbursement_rules) then s else c_other)"
| "resolve_category (JList xs) = Inl TypeError"
| "resolve_category (JObj kvs) = Inl TypeError"
| "resolve_category JNull = Inr c_other"
| "resolve_category (JBool b) = Inr c_other"
| "resolve_category (JInt n) = Inr c_other"
| "resolve_category (JFloat x) = Inr c_other"

subsection \<open>Checking a batch\<close>

text \<open>
  The reasons, one constructor for each format string of the source with the values it
  interpolates.
\<close>

datatype reason =
    Exceeds_cap pystr pyfloat
  | Needs_invoice pystr
  | Exceeds_daily_count nat

text \<open>
  \<open>expense_result\<close>: the copy of the expense, the flag stored under \<open>he gui\<close> and,
  when the flag is false, the reasons stored under \<open>yuan yin\<close>.
\<close>

record verdict =
  v_expense :: "(pystr \<times> json) list"
  v_compliant :: bool
  v_reasons :: "reason list"

type_synonym daily_meals = "pykey \<rightharpoonup> (nat \<times> pyfloat)"

text \<open>Line 60: \<open>float(expense.get("jin e", 0))\<close>.\<close>

definition expense_amount :: "env \<Rightarrow> (pystr \<times> json) list \<Rightarrow> py_error + pyfloat" where
  "expense_amount E expense = py_float E (dict_get expense k_amount (JInt 0))"

text \<open>
  Lines 59 to 92 of the loop body: read the fields, resolve the rule, and run the three
  checks. The result is the updated \<open>daily_meals\<close>, the expense, its amount,
  \<open>is_compliant\<close> and \<open>reasons\<close>.
\<close>

definition judge ::
  "env \<Rightarrow> daily_meals \<Rightarrow> json
    \<Rightarrow> py_error + (daily_meals \<times> (pystr \<times> json) list \<times> pyfloat \<times> bool \<times> reason list)" where
  "judge E daily x =
    (case x of
       JObj expense \<Rightarrow>
        (case expense_amount E expense of
           Inl err \<Rightarrow> Inl err
         | Inr amount \<Rightarrow>
            (let date = dict_get expense k_date (JStr (today E));
                 has_invoice = dict_get expense k_has_invoice (JBool False)
             in case resolve_category (dict_get expense k_category (JStr c_other)) of
                  Inl err \<Rightarrow> Inl err
                | Inr category \<Rightarrow>
                   (case map_of reimbursement_rules category of
                      None \<Rightarrow> Inl KeyError
                    | Some r \<Rightarrow>
                       (let (ok1, rs1) =
                              (if fgt amount (cap r) then (False, [Exceeds_cap category (cap r)])
                               else (True, []));
                            (ok2, rs2) =
                              (if needs_invoice r \<and> \<not> truthy has_invoice
                               then (False, rs1 @ [Needs_invoice category])
                               else (ok1, rs1))
                        in if category = c_meals then
                             (case py_hashkey date of
                                Inl err \<Rightarrow> Inl err
                              | Inr d \<Rightarrow>
                                 (let (cnt, tot) =
                                        (case daily d of None \<Rightarrow> (0, Finite 0) | Some p \<Rightarrow> p);
                                      daily' = daily(d \<mapsto> (cnt + 1, fadd E tot amount))
                                  in case daily_limit r of
                                       None \<Rightarrow> Inl KeyError
                                     | Some lmt \<Rightarrow>
                                        (if cnt + 1 > lmt
                                         then Inr (daily', expense, amount, False,
                                                   rs2 @ [Exceeds_daily_count lmt])
                                         else Inr (daily', expense, amount, ok2, rs2))))
                           else Inr (daily, expense, amount, ok2, rs2)))))
     | _ \<Rightarrow> Inl AttributeError)"

text \<open>The local variables of \<open>_check_compliance\<close> that the loop updates.\<close>

record loop_state =
  total_amount :: pyfloat
  compliant_expenses :: "verdict list"
  non_compliant_expenses :: "verdict list"
  daily :: daily_meals

text \<open>Lines 94 to 103: record the verdict in one of the two lists.\<close>

definition check_item :: "env \<Rightarrow> loop_state \<Rightarrow> json \<Rightarrow> py_error + loop_state" where
  "check_item E st x =
    (case judge E (daily st) x of
       Inl err \<Rightarrow> Inl err
     | Inr (daily', expense, amount, is_compliant, reasons) \<Rightarrow>
        (if is_compliant then
           Inr (st\<lparr>compliant_expenses := compliant_expenses st @
                      [\<lparr>v_expense = expense, v_compliant = True, v_reasons = []\<rparr>],
                   total_amount := fadd E (total_amount st) amount,
                   daily := daily'\<rparr>)
         else
           Inr (st\<lparr>non_compliant_expenses := non_compliant_expenses st @
                      [\<lparr>v_expense = expense, v_compliant = False, v_reasons = reasons\<rparr>],
                   daily := daily'\<rparr>)))"

fun check_loop :: "env \<Rightarrow> loop_state \<Rightarrow> json list \<Rightarrow> py_error + loop_state" where
  "check_loop E st [] = Inr st"
| "check_loop E st (x # xs) =
     (case check_item E st x of Inl err \<Rightarrow> Inl err | Inr st' \<Rightarrow> check_loop E st' xs)"

text \<open>The dictionary that \<open>_check_compliance\<close> returns.\<close>

record batch_result =
  compliant_items :: "verdict list"
  non_compliant_items :: "verdict list"
  compliant_total_amount :: pyfloat
  item_count :: nat
  compliant_count :: nat
  non_compliant_count :: nat

definition init_state :: loop_state where
  "init_state = \<lparr>total_amount = Finite 0, compliant_expenses = [], non_compliant_expenses = [],
                 daily = Map.empty\<rparr>"

definition check_compliance :: "env \<Rightarrow> json \<Rightarrow> py_error + batch_result" where
  "check_compliance E expenses =
    (case py_iter expenses of
       Inl err \<Rightarrow> Inl err
     | Inr xs \<Rightarrow>
        (case check_loop E init_state xs of
           Inl err \<Rightarrow> Inl err
         | Inr st \<Rightarrow>
            Inr \<lparr>compliant_items = compliant_expenses st,
                 non_compliant_items = non_compliant_expenses st,
                 compliant_total_amount = total_amount st,
                 item_count = length xs,
                 compliant_count = length (compliant_expenses st),
                 non_compliant_count = length (non_compliant_expenses st)\<rparr>))"


subsection \<open>Serialising a result\<close>

text \<open>
  The entries of the expense that are still in \<open>expense_result\<close>: an assignment to a
  key replaces the entry the copy had under it.
\<close>

definition result_fields :: "verdict \<Rightarrow> (pystr \<times> json) list" where
  "result_fields v =
    (if v_compliant v then AList.delete k_compliant (AList.clearjunk (v_expense v))
     else AList.delete k_reasons (AList.delete k_compliant (AList.clearjunk (v_expense v))))"

text \<open>
  The nesting depth of \<open>expense_result\<close> (a dictionary whose list of reasons, when it
  has one, is one level down) and of the dictionary \<open>_check_compliance\<close> returns (whose
  items are two levels down, in the two lists).
\<close>

definition verdict_depth :: "verdict \<Rightarrow> nat" where
  "verdict_depth v =
    Suc (fold max (map (\<lambda>kv. json_depth (snd kv)) (result_fields v))
           (if v_compliant v then 0 else 1))"

definition result_depth :: "batch_result \<Rightarrow> nat" where
  "result_depth r =
    Suc (Suc (fold max (map verdict_depth (compliant_items r @ non_compliant_items r)) 0))"

text \<open>
  The strings \<open>invoke\<close> returns: the text \<open>json.dumps\<close> makes of a result (with its
  \<open>indent\<close> argument), the two \<open>MISSING_INFO\<close> messages, and the message built from a
  caught exception.
\<close>

datatype reply =
    Json_dumps "nat option" batch_result
  | Missing_info_expenses
  | Missing_info_json
  | Error_text py_error

text \<open>
  \<open>json.dumps(result, ensure_ascii=False, indent=indent)\<close>: the encoder recurses once
  for each level of nesting and raises \<open>RecursionError\<close> when the value is nested more
  deeply than it has room for.
\<close>

definition json_dumps :: "env \<Rightarrow> nat option \<Rightarrow> batch_result \<Rightarrow> py_error + reply" where
  "json_dumps E indent result =
    (if result_depth result \<le> encoder_room E indent then Inr (Json_dumps indent result)
     else Inl (Encoder_recursion indent))"

subsection \<open>The two entry points\<close>

text \<open>
  The two handlers of \<open>invoke\<close>, which enclose its whole body: \<open>JSONDecodeError\<close>
  first, then every other exception.
\<close>

definition invoke_except :: "py_error \<Rightarrow> reply" where
  "invoke_except err = (if err = JSONDecodeError then Missing_info_json else Error_text err)"

definition invoke :: "env \<Rightarrow> json \<Rightarrow> pystr \<Rightarrow> reply" where
  "invoke E query session_id =
    (case (case query of JStr s \<Rightarrow> loads E s | _ \<Rightarrow> Inr query) of
       Inl err \<Rightarrow> invoke_except err
     | Inr data \<Rightarrow>
        (case data of
           JObj d \<Rightarrow>
            (case map_of d k_expenses of
               Some expenses \<Rightarrow>
                (case check_compliance E expenses of
                   Inl err \<Rightarrow> invoke_except err
                 | Inr result \<Rightarrow>
                    (case json_dumps E (Some 2) result of
                       Inl err \<Rightarrow> invoke_except err
                     | Inr s \<Rightarrow> s))
             | None \<Rightarrow> Missing_info_expenses)
         | _ \<Rightarrow> Missing_info_expenses))"







section \<open>The taxi reimbursement agent\<close>

subsection \<open>Pickup location\<close>

definition capital_tower :: pystr where \<comment> \<open>zhong guan cun zi ben da sha\<close>
  "capital_tower = [20013, 20851, 26449, 36164, 26412, 22823, 21414]"

definition VALID_PICKUP_LOCATIONS :: "pystr list" where
  "VALID_PICKUP_LOCATIONS =
    [[20013, 20851, 26449, 36164, 26412, 22823, 21414],
     [20013, 20851, 26449, 36164, 26412, 22823, 21414, 21271, 38376],
     [28023, 28096, 21306, 23398, 38498, 21335, 36335],
     [23398, 38498, 21335, 36335],
     [36164, 26412, 22823, 21414]]"

definition INVALID_LOCATION_KEYWORDS :: "pystr list" where
  \<comment> \<open>zhong guan cun, wang jing, guo mao\<close>
  "INVALID_LOCATION_KEYWORDS = [[20013, 20851, 26449], [26395, 20140], [22269, 36152]]"

text \<open>
  \<open>a in b\<close> on two strings holds when \<open>a\<close> occurs in \<open>b\<close> as a contiguous run:
  \<^term>\<open>sublist a b\<close>. Each loop is a function that says whether the loop returned.
\<close>

fun valid_loop :: "pystr list \<Rightarrow> pystr \<Rightarrow> bool" where
  "valid_loop [] location = False"
| "valid_loop (valid_location # rest) location =
     (if sublist valid_location location then True else valid_loop rest location)"

fun keyword_loop :: "pystr list \<Rightarrow> pystr \<Rightarrow> bool" where
  "keyword_loop [] location = False"
| "keyword_loop (keyword # rest) location =
     (if sublist keyword location \<and> \<not> sublist capital_tower location then True
      else keyword_loop rest location)"

definition is_valid_pickup_location :: "pystr \<Rightarrow> bool" where
  "is_valid_pickup_location location =
    (if valid_loop VALID_PICKUP_LOCATIONS location then True
     else if keyword_loop INVALID_LOCATION_KEYWORDS location then False
     else False)"

subsection \<open>Pickup time\<close>

text \<open>A \<open>datetime.time\<close> with seconds and microseconds 0; times compare by hour, then minute.\<close>

record pytime =
  hour :: nat
  minute :: nat

definition time_le :: "pytime \<Rightarrow> pytime \<Rightarrow> bool" where
  "time_le a b = (hour a < hour b \<or> (hour a = hour b \<and> minute a \<le> minute b))"
text \<open>
  \<open>datetime.strptime\<close> turns a format into a regular expression, matches it at the start
  of the string by backtracking, and raises \<open>ValueError\<close> when nothing matches or when
  the match leaves text over. \<open>%H\<close> is \<open>2[0-3]|[0-1]\d|\d\<close> and \<open>%M\<close> is \<open>[0-5]\d|\d\<close>.
  The bracketed classes hold ASCII digits; \<open>\d\<close> matches every decimal digit of Unicode
  (the characters of category Nd), and \<open>int\<close> reads each of them by its decimal value.
\<close>

datatype directive = H | M | Lit nat

text \<open>
  The decimal digits of Unicode 14.0, the version of Python 3.11: they come in runs of
  ten, from the digit zero to the digit nine of a script, and the list gives the code point
  at which each run starts (48 for ASCII, 65296 for the fullwidth digits).
\<close>

definition decimal_starts :: "nat list" where
  "decimal_starts =
    [48, 1632, 1776, 1984, 2406, 2534, 2662, 2790, 2918, 3046, 3174, 3302, 3430, 3558,
     3664, 3792, 3872, 4160, 4240, 6112, 6160, 6470, 6608, 6784, 6800, 6992, 7088, 7232,
     7248, 42528, 43216, 43264, 43472, 43504, 43600, 44016, 65296, 66720, 68912, 69734,
     69872, 69942, 70096, 70384, 70736, 70864, 71248, 71360, 71472, 71904, 72016, 72784,
     73040, 73120, 92768, 92864, 93008, 120782, 120792, 120802, 120812, 120822, 123200,
     123632, 125264, 130032]"

definition decimal_value :: "nat \<Rightarrow> nat option" where
  "decimal_value c =
    (case filter (\<lambda>s. s \<le> c \<and> c < s + 10) decimal_starts of
       [] \<Rightarrow> None
     | s # _ \<Rightarrow> Some (c - s))"

text \<open>
  The alternatives of a directive that match at the start of \<open>s\<close>, in their order, each
  with the number \<open>int\<close> reads from the matched text and with the text left.
\<close>

definition alternatives_H :: "pystr \<Rightarrow> (nat \<times> pystr) list" where
  "alternatives_H s =
    (case s of
       c # d # r \<Rightarrow>
        (if c = 50 \<and> 48 \<le> d \<and> d \<le> 51 then [(20 + (d - 48), r)] else []) @
        (if 48 \<le> c \<and> c \<le> 49 then
           (case decimal_value d of None \<Rightarrow> [] | Some v \<Rightarrow> [(10 * (c - 48) + v, r)])
         else [])
     | _ \<Rightarrow> []) @
    (case s of
       c # r \<Rightarrow> (case decimal_value c of None \<Rightarrow> [] | Some v \<Rightarrow> [(v, r)])
     | [] \<Rightarrow> [])"

definition alternatives_M :: "pystr \<Rightarrow> (nat \<times> pystr) list" where
  "alternatives_M s =
    (case s of
       c # d # r \<Rightarrow>
        (if 48 \<le> c \<and> c \<le> 53 then
           (case decimal_value d of None \<Rightarrow> [] | Some v \<Rightarrow> [(10 * (c - 48) + v, r)])
         else [])
     | _ \<Rightarrow> []) @
    (case s of
       c # r \<Rightarrow> (case decimal_value c of None \<Rightarrow> [] | Some v \<Rightarrow> [(v, r)])
     | [] \<Rightarrow> [])"


text \<open>All matches of a format at the start of a string, in backtracking order.\<close>

fun regex_match :: "directive list \<Rightarrow> pystr \<Rightarrow> pytime \<Rightarrow> (pytime \<times> pystr) list" where
  "regex_match [] s t = [(t, s)]"
| "regex_match (Lit c # p) s t =
     (case s of [] \<Rightarrow> [] | x # r \<Rightarrow> (if x = c then regex_match p r t else []))"
| "regex_match (H # p) s t =
     concat (map (\<lambda>(v, r). regex_match p r (t\<lparr>hour := v\<rparr>)) (alternatives_H s))"
| "regex_match (M # p) s t =
     concat (map (\<lambda>(v, r). regex_match p r (t\<lparr>minute := v\<rparr>)) (alternatives_M s))"

text \<open>\<open>datetime.strptime(s, fmt).time()\<close>; \<open>None\<close> stands for \<open>ValueError\<close>.\<close>

definition strptime :: "pystr \<Rightarrow> directive list \<Rightarrow> pytime option" where
  "strptime s fmt =
    (case regex_match fmt s \<lparr>hour = 0, minute = 0\<rparr> of
       [] \<Rightarrow> None
     | (t, rest) # _ \<Rightarrow> (if rest = [] then Some t else None))"

text \<open>
  The five formats: \<open>%H:%M\<close>, \<open>%H dian %M fen\<close>, \<open>%H shi %M fen\<close>, \<open>%H dian\<close>,
  \<open>%H shi\<close> (code points 28857, 20998 and 26102).
\<close>

definition formats :: "directive list list" where
  "formats =
    [[H, Lit 58, M], [H, Lit 28857, M, Lit 20998], [H, Lit 26102, M, Lit 20998],
     [H, Lit 28857], [H, Lit 26102]]"

fun try_formats :: "directive list list \<Rightarrow> pystr \<Rightarrow> pytime option" where
  "try_formats [] pickup_time = None"
| "try_formats (fmt # rest) pickup_time =
     (case strptime pickup_time fmt of
        Some parsed_time \<Rightarrow> Some parsed_time
      | None \<Rightarrow> try_formats rest pickup_time)"

text \<open>
  The message returned with the flag: empty, the unrecognised-format message, or the
  message naming the time that is outside the window. (The third message of the source,
  for an exception other than \<open>ValueError\<close>, cannot arise on a string.)
\<close>

datatype time_message = No_message | Unrecognized_format | Outside_window pystr

definition night_start :: pytime where
  "night_start = \<lparr>hour = 21, minute = 0\<rparr>"

definition morning_end :: pytime where
  "morning_end = \<lparr>hour = 5, minute = 0\<rparr>"

definition is_valid_pickup_time :: "pystr \<Rightarrow> bool \<times> time_message" where
  "is_valid_pickup_time pickup_time =
    (case try_formats formats pickup_time of
       None \<Rightarrow> (False, Unrecognized_format)
     | Some parsed_time \<Rightarrow>
        (if time_le night_start parsed_time \<or> time_le parsed_time morning_end
         then (True, No_message)
         else (False, Outside_window pickup_time)))"

subsection \<open>Request forms and reimbursement\<close>

text \<open>\<open>str(n)\<close> for a natural number: its decimal digits.\<close>

fun str_nat :: "nat \<Rightarrow> pystr" where
  "str_nat n = (if n < 10 then [48 + n] else str_nat (n div 10) @ [48 + n mod 10])"

declare str_nat.simps [simp del]

definition request_id_prefix :: pystr where \<comment> \<open>request_id_\<close>
  "request_id_prefix = [114, 101, 113, 117, 101, 115, 116, 95, 105, 100, 95]"

text \<open>The placeholders of the form: location, time, date, amount.\<close>

definition placeholder_location :: pystr where
  "placeholder_location = [60, 19978, 36710, 22320, 28857, 62]"
definition placeholder_time :: pystr where
  "placeholder_time =
    [60, 19978, 36710, 26102, 38388, 65288, 50, 52, 23567, 26102, 21046, 65292, 22914, 32,
     50, 49, 58, 51, 48, 65289, 62]"
definition placeholder_date :: pystr where
  "placeholder_date = [60, 20056, 36710, 26085, 26399, 62]"
definition placeholder_amount :: pystr where
  "placeholder_amount = [60, 25171, 36710, 36153, 37329, 39069, 62]"

record form =
  f_request_id :: pystr
  f_pickup_location :: pystr
  f_pickup_time :: pystr
  f_date :: pystr
  f_amount :: pystr

text \<open>\<open>placeholder if not x else x\<close>, for an optional string.\<close>

definition or_placeholder :: "pystr \<Rightarrow> pystr option \<Rightarrow> pystr" where
  "or_placeholder ph x = (case x of None \<Rightarrow> ph | Some s \<Rightarrow> (if s = [] then ph else s))"

text \<open>
  \<open>create_taxi_request_form\<close>, given the number \<open>n\<close> that
  \<open>random.randint(1000000, 9999999)\<close> returned and the global set \<open>request_ids\<close>; it
  returns the form and the set after the call.
\<close>

definition create_taxi_request_form ::
  "nat \<Rightarrow> pystr set \<Rightarrow> pystr option \<Rightarrow> pystr option \<Rightarrow> pystr option \<Rightarrow> pystr option
    \<Rightarrow> form \<times> pystr set" where
  "create_taxi_request_form n request_ids pickup_location pickup_time date amount =
    (let request_id = request_id_prefix @ str_nat n
     in (\<lparr>f_request_id = request_id,
          f_pickup_location = or_placeholder placeholder_location pickup_location,
          f_pickup_time = or_placeholder placeholder_time pickup_time,
          f_date = or_placeholder placeholder_date date,
          f_amount = or_placeholder placeholder_amount amount\<rparr>,
         insert request_id request_ids))"

text \<open>The value of \<open>"reason"\<close> in a rejection, and the dictionary \<open>reimburse_taxi\<close> returns.\<close>

datatype rejection =
    Invalid_request_id
  | Location_not_allowed pystr
  | Time_rejected time_message

datatype decision = Approved pystr | Rejected pystr rejection

definition reimburse_taxi :: "pystr set \<Rightarrow> pystr \<Rightarrow> pystr \<Rightarrow> pystr \<Rightarrow> decision" where
  "reimburse_taxi request_ids request_id pickup_location pickup_time =
    (if request_id \<notin> request_ids then Rejected request_id Invalid_request_id
     else if \<not> is_valid_pickup_location pickup_location
       then Rejected request_id (Location_not_allowed pickup_location)
     else (case is_valid_pickup_time pickup_time of
             (valid_time, time_error) \<Rightarrow>
               (if \<not> valid_time then Rejected request_id (Time_rejected time_error)
                else Approved request_id)))"

text \<open>
  The module-level set \<open>request_ids\<close> starts empty and only
  \<open>create_taxi_request_form\<close> writes to it. A process lifetime is, for the set, the
  calls of that function in order, each with the number it drew and its four arguments;
  \<open>run_creates\<close> gives the forms returned, in order, and the set after the last call.
\<close>

type_synonym create_call = "nat \<times> pystr option \<times> pystr option \<times> pystr option \<times> pystr option"

fun run_creates :: "create_call list \<Rightarrow> pystr set \<Rightarrow> form list \<times> pystr set" where
  "run_creates [] request_ids = ([], request_ids)"
| "run_creates ((n, pickup_location, pickup_time, date, amount) # calls) request_ids =
     (case create_taxi_request_form n request_ids pickup_location pickup_time date amount of
        (f, request_ids') \<Rightarrow>
          (case run_creates calls request_ids' of
             (fs, request_ids'') \<Rightarrow> (f # fs, request_ids'')))"


section \<open>Notions used in the properties\<close>

text \<open>
  The floats of a list added one by one from 0, in the order of the list: what the loop
  does with the amounts it adds, and what \<open>sum\<close> does in Python 3.11.
\<close>

definition py_sum :: "env \<Rightarrow> pyfloat list \<Rightarrow> pyfloat" where
  "py_sum E xs = foldl (fadd E) (Finite 0) xs"

text \<open>\<open>daily_meals[date]["count"]\<close>, with 0 for a date that has no entry yet.\<close>

definition meal_count :: "daily_meals \<Rightarrow> pykey \<Rightarrow> nat" where
  "meal_count dm d = (case dm d of None \<Rightarrow> 0 | Some p \<Rightarrow> fst p)"

text \<open>\<open>daily_meals[date]["total"]\<close>, with 0.0 for a date that has no entry yet.\<close>

definition meal_total :: "daily_meals \<Rightarrow> pykey \<Rightarrow> pyfloat" where
  "meal_total dm d = (case dm d of None \<Rightarrow> Finite 0 | Some p \<Rightarrow> snd p)"

text \<open>\<open>expense.get("shi fou you fa piao", False)\<close>\<close>

definition expense_invoice :: "(pystr \<times> json) list \<Rightarrow> json" where
  "expense_invoice e = dict_get e k_has_invoice (JBool False)"

text \<open>The category an expense resolves to, and the key its date has in \<open>daily_meals\<close>.\<close>

definition expense_category :: "(pystr \<times> json) list \<Rightarrow> py_error + pystr" where
  "expense_category e = resolve_category (dict_get e k_category (JStr c_other))"

definition expense_date :: "env \<Rightarrow> (pystr \<times> json) list \<Rightarrow> py_error + pykey" where
  "expense_date E e = py_hashkey (dict_get e k_date (JStr (today E)))"

text \<open>The cap of a category of the table.\<close>

definition category_cap :: "pystr \<Rightarrow> pyfloat" where
  "category_cap c =
    (case map_of reimbursement_rules c of None \<Rightarrow> Finite 0 | Some r \<Rightarrow> cap r)"

text \<open>
  A meal of amount \<open>a\<close> on the date \<open>d\<close> that the cap and the invoice rule accept: its
  amount is not above 100 and its invoice field is true.
\<close>

definition accepted_meal :: "env \<Rightarrow> (pystr \<times> json) list \<Rightarrow> pykey \<Rightarrow> pyfloat \<Rightarrow> bool" where
  "accepted_meal E e d a =
    (expense_category e = Inr c_meals \<and> expense_amount E e = Inr a \<and> \<not> fgt a (Finite 100) \<and>
     truthy (expense_invoice e) \<and> expense_date E e = Inr d)"

text \<open>
  A meal of amount \<open>a\<close> on the date \<open>d\<close>, whatever its amount and its invoice field
  are; and the verdict of a meal that is the \<open>n\<close>-th of its date in the batch.
\<close>

definition meal_on :: "env \<Rightarrow> (pystr \<times> json) list \<Rightarrow> pykey \<Rightarrow> pyfloat \<Rightarrow> bool" where
  "meal_on E e d a =
    (expense_category e = Inr c_meals \<and> expense_amount E e = Inr a \<and> expense_date E e = Inr d)"

definition meal_reasons :: "(pystr \<times> json) list \<Rightarrow> pyfloat \<Rightarrow> nat \<Rightarrow> reason list" where
  "meal_reasons e a n =
    (if fgt a (Finite 100) then [Exceeds_cap c_meals (Finite 100)] else []) @
    (if \<not> truthy (expense_invoice e) then [Needs_invoice c_meals] else []) @
    (if n > 3 then [Exceeds_daily_count 3] else [])"

definition meal_verdict :: "(pystr \<times> json) list \<Rightarrow> pyfloat \<Rightarrow> nat \<Rightarrow> verdict" where
  "meal_verdict e a n =
    \<lparr>v_expense = e, v_compliant = (meal_reasons e a n = []),
     v_reasons = meal_reasons e a n\<rparr>"

text \<open>
  The verdicts of a run of meals on one date, given with their amounts, when \<open>k\<close>
  meals of that date came before.
\<close>

fun meal_verdicts :: "((pystr \<times> json) list \<times> pyfloat) list \<Rightarrow> nat \<Rightarrow> verdict list" where
  "meal_verdicts [] k = []"
| "meal_verdicts ((e, a) # rest) k = meal_verdict e a (k + 1) # meal_verdicts rest (k + 1)"

text \<open>An item that, if it is a dictionary, has a date of its own.\<close>

definition dated :: "json \<Rightarrow> bool" where
  "dated x = (case x of JObj e \<Rightarrow> map_of e k_date \<noteq> None | _ \<Rightarrow> True)"

text \<open>
  An item the loop body can process: a dictionary whose amount \<open>float\<close> converts, whose
  category can be hashed and, if it is a meal, whose date can be hashed.
\<close>

definition evaluable :: "env \<Rightarrow> json \<Rightarrow> bool" where
  "evaluable E x =
    (case x of
       JObj e \<Rightarrow>
        (case expense_amount E e of
           Inl err \<Rightarrow> False
         | Inr a \<Rightarrow>
            (case expense_category e of
               Inl err \<Rightarrow> False
             | Inr c \<Rightarrow>
                (if c = c_meals then (case expense_date E e of Inl err \<Rightarrow> False | Inr d \<Rightarrow> True)
                 else True)))
     | _ \<Rightarrow> False)"

text \<open>
  The result of \<open>judge\<close> without the copy of the expense: what the evaluation of an item
  comes to, apart from the fields it carries along.
\<close>

definition judgement ::
  "env \<Rightarrow> daily_meals \<Rightarrow> json \<Rightarrow> py_error + (daily_meals \<times> pyfloat \<times> bool \<times> reason list)" where
  "judgement E dm x =
    (case judge E dm x of
       Inl err \<Rightarrow> Inl err
     | Inr (dm', expense, amount, ok, rs) \<Rightarrow> Inr (dm', amount, ok, rs))"


subsection \<open>Inputs for the examples\<close>

text \<open>
  An environment for the examples. None of them parses a text or converts a string to a
  number. Its rounding sends a number beyond the range of the doubles to an infinity and
  leaves any other number as it is, which is right for the doubles. Its date is
  2024-01-01. Its encoder without \<open>indent\<close> has room for 989 levels and its encoder
  with \<open>indent\<close> for 990, as in a Python 3.11 that calls \<open>json.dumps\<close> near the
  bottom of the stack.
\<close>

definition day1 :: pystr where \<comment> \<open>2024-01-01\<close>
  "day1 = [50, 48, 50, 52, 45, 48, 49, 45, 48, 49]"

definition day2 :: pystr where \<comment> \<open>2024-01-02\<close>
  "day2 = [50, 48, 50, 52, 45, 48, 49, 45, 48, 50]"

definition example_nearest :: "real \<Rightarrow> pyfloat" where
  "example_nearest x =
    (if 2 ^ 1024 - 2 ^ 970 \<le> x then PosInf
     else if x \<le> - (2 ^ 1024 - 2 ^ 970) then NegInf
     else Finite x)"

definition example_env :: env where
  "example_env =
    \<lparr>loads = (\<lambda>s. Inl JSONDecodeError), str_to_float = (\<lambda>s. None),
     nearest_double = example_nearest, today = day1,
     encoder_room = (\<lambda>indent. case indent of None \<Rightarrow> 989 | Some n \<Rightarrow> 990)\<rparr>"

definition transport_item :: "pyfloat \<Rightarrow> (pystr \<times> json) list" where
  "transport_item a =
    [(k_category, JStr c_transport), (k_amount, JFloat a), (k_has_invoice, JBool True)]"

definition meal_item :: "pyfloat \<Rightarrow> pystr \<Rightarrow> (pystr \<times> json) list" where
  "meal_item a d =
    [(k_category, JStr c_meals), (k_amount, JFloat a), (k_date, JStr d),
     (k_has_invoice, JBool True)]"

definition undated_meal_item :: "pyfloat \<Rightarrow> (pystr \<times> json) list" where
  "undated_meal_item a =
    [(k_category, JStr c_meals), (k_amount, JFloat a), (k_has_invoice, JBool True)]"

definition compliant_verdict :: "(pystr \<times> json) list \<Rightarrow> verdict" where
  "compliant_verdict e = \<lparr>v_expense = e, v_compliant = True, v_reasons = []\<rparr>"

definition rejected_verdict :: "(pystr \<times> json) list \<Rightarrow> reason list \<Rightarrow> verdict" where
  "rejected_verdict e rs = \<lparr>v_expense = e, v_compliant = False, v_reasons = rs\<rparr>"

text \<open>Four meals of 50 dated 2024-01-01, and what checking them returns.\<close>

definition four_dated_meals :: "json list" where
  "four_dated_meals =
    [JObj (meal_item (Finite 50) day1), JObj (meal_item (Finite 50) day1),
     JObj (meal_item (Finite 50) day1), JObj (meal_item (Finite 50) day1)]"

definition four_dated_meals_result :: batch_result where
  "four_dated_meals_result =
    \<lparr>compliant_items = [compliant_verdict (meal_item (Finite 50) day1),
       compliant_verdict (meal_item (Finite 50) day1),
       compliant_verdict (meal_item (Finite 50) day1)],
     non_compliant_items =
       [rejected_verdict (meal_item (Finite 50) day1) [Exceeds_daily_count 3]],
     compliant_total_amount = Finite 150,
     item_count = 4, compliant_count = 3, non_compliant_count = 1\<rparr>"








section \<open>Properties of the finance agent\<close>

subsection \<open>What one pass of the loop does\<close>

lemma judge_Inr:
  assumes "judge E d x = Inr (d', expense, amount, ok, rs)"
  shows "x = JObj expense" and "expense_amount E expense = Inr amount"
  using assms
  by (auto simp: judge_def Let_def split: json.splits sum.splits option.splits
      prod.splits if_splits)

lemma check_item_Inr:
  assumes "check_item E st x = Inr st'"
  shows "\<exists>v a d'. x = JObj (v_expense v) \<and> expense_amount E (v_expense v) = Inr a \<and>
           st' = (if v_compliant v
                  then st\<lparr>compliant_expenses := compliant_expenses st @ [v],
                          total_amount := fadd E (total_amount st) a, daily := d'\<rparr>
                  else st\<lparr>non_compliant_expenses := non_compliant_expenses st @ [v],
                          daily := d'\<rparr>)"
proof -
  from assms obtain d' expense amount ok rs
    where j: "judge E (daily st) x = Inr (d', expense, amount, ok, rs)"
    by (auto simp: check_item_def split: sum.splits)
  note facts = judge_Inr [OF j]
  show ?thesis
  proof (cases ok)
    case True
    with assms j facts show ?thesis
      by (intro exI [of _ "\<lparr>v_expense = expense, v_compliant = True, v_reasons = []\<rparr>"]
          exI [of _ amount] exI [of _ d']) (simp add: check_item_def)
  next
    case False
    with assms j facts show ?thesis
      by (intro exI [of _ "\<lparr>v_expense = expense, v_compliant = False, v_reasons = rs\<rparr>"]
          exI [of _ amount] exI [of _ d']) (simp add: check_item_def)
  qed
qed

text \<open>
  The loop appends to the two lists, in order, the verdicts of the items it has read; the
  total grows by the amounts of the compliant ones.
\<close>

lemma check_loop_Inr:
  assumes "check_loop E st xs = Inr st'"
  shows "\<exists>vs. map (\<lambda>v. JObj (v_expense v)) vs = xs \<and>
           compliant_expenses st' = compliant_expenses st @ filter v_compliant vs \<and>
           non_compliant_expenses st' =
             non_compliant_expenses st @ filter (\<lambda>v. \<not> v_compliant v) vs \<and>
           (\<exists>as. map (\<lambda>v. expense_amount E (v_expense v)) (filter v_compliant vs) = map Inr as \<and>
                 total_amount st' = foldl (fadd E) (total_amount st) as)"
  using assms
proof (induction xs arbitrary: st)
  case Nil
  then show ?case by simp
next
  case (Cons x xs)
  from Cons.prems obtain st1 where
    s1: "check_item E st x = Inr st1" and rest: "check_loop E st1 xs = Inr st'"
    by (auto split: sum.splits)
  from check_item_Inr [OF s1] obtain v a d' where
    x: "x = JObj (v_expense v)" and a: "expense_amount E (v_expense v) = Inr a" and
    st1: "st1 = (if v_compliant v
                 then st\<lparr>compliant_expenses := compliant_expenses st @ [v],
                         total_amount := fadd E (total_amount st) a, daily := d'\<rparr>
                 else st\<lparr>non_compliant_expenses := non_compliant_expenses st @ [v],
                         daily := d'\<rparr>)"
    by blast
  from Cons.IH [OF rest] obtain vs as where
    vs: "map (\<lambda>v. JObj (v_expense v)) vs = xs" and
    c: "compliant_expenses st' = compliant_expenses st1 @ filter v_compliant vs" and
    n: "non_compliant_expenses st' =
          non_compliant_expenses st1 @ filter (\<lambda>v. \<not> v_compliant v) vs" and
    as: "map (\<lambda>v. expense_amount E (v_expense v)) (filter v_compliant vs) = map Inr as" and
    t: "total_amount st' = foldl (fadd E) (total_amount st1) as"
    by blast
  have m: "map (\<lambda>v. JObj (v_expense v)) (v # vs) = x # xs"
    using x vs by simp
  have c': "compliant_expenses st' = compliant_expenses st @ filter v_compliant (v # vs)"
    using c st1 by simp
  have n': "non_compliant_expenses st' =
              non_compliant_expenses st @ filter (\<lambda>v. \<not> v_compliant v) (v # vs)"
    using n st1 by simp
  have t': "\<exists>as'. map (\<lambda>v. expense_amount E (v_expense v)) (filter v_compliant (v # vs)) =
                    map Inr as' \<and>
                  total_amount st' = foldl (fadd E) (total_amount st) as'"
  proof (cases "v_compliant v")
    case True
    then show ?thesis
      using a as st1 t by (intro exI [of _ "a # as"]) simp
  next
    case False
    then show ?thesis
      using as st1 t by (intro exI [of _ as]) simp
  qed
  show ?case
    by (rule exI [of _ "v # vs"]) (intro conjI m c' n' t')
qed

lemma check_compliance_Inr:
  assumes "check_compliance E expenses = Inr r"
  shows "\<exists>xs vs as. py_iter expenses = Inr xs \<and> map (\<lambda>v. JObj (v_expense v)) vs = xs \<and>
           compliant_items r = filter v_compliant vs \<and>
           non_compliant_items r = filter (\<lambda>v. \<not> v_compliant v) vs \<and>
           map (\<lambda>v. expense_amount E (v_expense v)) (compliant_items r) = map Inr as \<and>
           compliant_total_amount r = py_sum E as \<and>
           item_count r = length xs \<and>
           compliant_count r = length (compliant_items r) \<and>
           non_compliant_count r = length (non_compliant_items r)"
proof -
  from assms obtain xs st where
    xs: "py_iter expenses = Inr xs" and st: "check_loop E init_state xs = Inr st" and
    r: "r = \<lparr>compliant_items = compliant_expenses st,
             non_compliant_items = non_compliant_expenses st,
             compliant_total_amount = total_amount st,
             item_count = length xs,
             compliant_count = length (compliant_expenses st),
             non_compliant_count = length (non_compliant_expenses st)\<rparr>"
    by (auto simp: check_compliance_def split: sum.splits)
  from check_loop_Inr [OF st] obtain vs as where
    "map (\<lambda>v. JObj (v_expense v)) vs = xs"
    "compliant_expenses st = filter v_compliant vs"
    "non_compliant_expenses st = filter (\<lambda>v. \<not> v_compliant v) vs"
    "map (\<lambda>v. expense_amount E (v_expense v)) (filter v_compliant vs) = map Inr as"
    "total_amount st = py_sum E as"
    by (auto simp: init_state_def py_sum_def)
  with xs r show ?thesis by auto
qed

subsection \<open>The loop body in closed form\<close>


lemma rule_meals:
  "map_of reimbursement_rules c_meals =
     Some \<lparr>cap = Finite 100, needs_invoice = True, daily_limit = Some 3, extra_approval = False\<rparr>"
  by (simp add: reimbursement_rules_def finance_names)

lemma resolve_category_in_rules:
  "resolve_category v = Inr c \<Longrightarrow> \<exists>r. map_of reimbursement_rules c = Some r \<and> needs_invoice r"
  by (cases v) (auto simp: reimbursement_rules_def finance_names split: if_splits)

lemma judge_meal:
  assumes "expense_amount E e = Inr a" and "expense_category e = Inr c_meals"
    and "expense_date E e = Inr d"
  shows "judge E dm (JObj e) =
    Inr (dm(d \<mapsto> (meal_count dm d + 1, fadd E (meal_total dm d) a)), e, a,
         \<not> fgt a (Finite 100) \<and> truthy (expense_invoice e) \<and> meal_count dm d + 1 \<le> 3,
         (if fgt a (Finite 100) then [Exceeds_cap c_meals (Finite 100)] else []) @
         (if \<not> truthy (expense_invoice e) then [Needs_invoice c_meals] else []) @
         (if meal_count dm d + 1 > 3 then [Exceeds_daily_count 3] else []))"
  using assms
  unfolding judge_def expense_category_def expense_date_def expense_invoice_def
  by (simp add: rule_meals Let_def meal_count_def meal_total_def split: option.splits)

lemma judge_other:
  assumes "expense_amount E e = Inr a" and "expense_category e = Inr c" and "c \<noteq> c_meals"
    and "map_of reimbursement_rules c = Some r"
  shows "judge E dm (JObj e) =
    Inr (dm, e, a, \<not> fgt a (cap r) \<and> truthy (expense_invoice e),
         (if fgt a (cap r) then [Exceeds_cap c (cap r)] else []) @
         (if \<not> truthy (expense_invoice e) then [Needs_invoice c] else []))"
proof -
  from resolve_category_in_rules [OF assms(2) [unfolded expense_category_def]] assms(4)
  have "needs_invoice r" by auto
  with assms show ?thesis
    unfolding judge_def expense_category_def expense_invoice_def
    by (simp add: Let_def)
qed

lemma check_item_compliant:
  "judge E (daily st) x = Inr (dm', e, a, True, rs) \<Longrightarrow>
   check_item E st x =
     Inr (st\<lparr>compliant_expenses := compliant_expenses st @ [compliant_verdict e],
             total_amount := fadd E (total_amount st) a, daily := dm'\<rparr>)"
  by (simp add: check_item_def compliant_verdict_def)

lemma check_item_rejected:
  "judge E (daily st) x = Inr (dm', e, a, False, rs) \<Longrightarrow>
   check_item E st x =
     Inr (st\<lparr>non_compliant_expenses := non_compliant_expenses st @ [rejected_verdict e rs],
             daily := dm'\<rparr>)"
  by (simp add: check_item_def rejected_verdict_def)

lemma transport_item_fields:
  "expense_amount E (transport_item a) = Inr a"
  "expense_category (transport_item a) = Inr c_transport"
  "expense_invoice (transport_item a) = JBool True"
  by (simp_all add: expense_amount_def expense_category_def expense_invoice_def dict_get_def
      transport_item_def reimbursement_rules_def finance_names)

lemma rule_transport:
  "map_of reimbursement_rules c_transport =
     Some \<lparr>cap = Finite 300, needs_invoice = True, daily_limit = None, extra_approval = False\<rparr>"
  by (simp add: reimbursement_rules_def finance_names)

lemma transport_not_meals: "c_transport \<noteq> c_meals"
  by (simp add: finance_names)

lemma judge_transport_item:
  "judge E dm (JObj (transport_item a)) =
     Inr (dm, transport_item a, a, \<not> fgt a (Finite 300),
          (if fgt a (Finite 300) then [Exceeds_cap c_transport (Finite 300)] else []))"
  using judge_other [OF transport_item_fields(1,2) transport_not_meals rule_transport]
  by (simp add: transport_item_fields)

lemma meal_item_fields:
  "expense_amount E (meal_item a d) = Inr a"
  "expense_category (meal_item a d) = Inr c_meals"
  "expense_invoice (meal_item a d) = JBool True"
  "expense_date E (meal_item a d) = Inr (KStr d)"
  by (simp_all add: expense_amount_def expense_category_def expense_invoice_def
      expense_date_def dict_get_def meal_item_def reimbursement_rules_def finance_names)

lemma undated_meal_item_fields:
  "expense_amount E (undated_meal_item a) = Inr a"
  "expense_category (undated_meal_item a) = Inr c_meals"
  "expense_invoice (undated_meal_item a) = JBool True"
  "expense_date E (undated_meal_item a) = Inr (KStr (today E))"
  by (simp_all add: expense_amount_def expense_category_def expense_invoice_def
      expense_date_def dict_get_def undated_meal_item_def reimbursement_rules_def finance_names)

lemma check_item_judged:
  "judge E (daily st) x = Inr (dm', e, a, ok, rs) \<Longrightarrow>
   check_item E st x =
     Inr (if ok
          then st\<lparr>compliant_expenses := compliant_expenses st @ [compliant_verdict e],
                  total_amount := fadd E (total_amount st) a, daily := dm'\<rparr>
          else st\<lparr>non_compliant_expenses := non_compliant_expenses st @ [rejected_verdict e rs],
                  daily := dm'\<rparr>)"
  by (simp add: check_item_def compliant_verdict_def rejected_verdict_def)

lemma check_item_accepted_meal:
  assumes "accepted_meal E e d a"
  shows "check_item E st (JObj e) =
     Inr (if meal_count (daily st) d + 1 \<le> 3
          then st\<lparr>compliant_expenses := compliant_expenses st @ [compliant_verdict e],
                  total_amount := fadd E (total_amount st) a,
                  daily := (daily st)(d \<mapsto> (meal_count (daily st) d + 1,
                                                 fadd E (meal_total (daily st) d) a))\<rparr>
          else st\<lparr>non_compliant_expenses :=
                    non_compliant_expenses st @ [rejected_verdict e [Exceeds_daily_count 3]],
                  daily := (daily st)(d \<mapsto> (meal_count (daily st) d + 1,
                                                 fadd E (meal_total (daily st) d) a))\<rparr>)"
proof -
  from assms have f: "expense_amount E e = Inr a" "expense_category e = Inr c_meals"
    "expense_date E e = Inr d" and ok: "\<not> fgt a (Finite 100)" "truthy (expense_invoice e)"
    by (simp_all add: accepted_meal_def)
  show ?thesis
    using ok by (simp add: check_item_judged [OF judge_meal [OF f]])
qed

lemma judge_JObj:
  "judge E dm (JObj e) =
    (case expense_amount E e of
       Inl err \<Rightarrow> Inl err
     | Inr a \<Rightarrow>
        (case expense_category e of
           Inl err \<Rightarrow> Inl err
         | Inr c \<Rightarrow>
            (if c = c_meals then
               (case expense_date E e of
                  Inl err \<Rightarrow> Inl err
                | Inr d \<Rightarrow>
                   Inr (dm(d \<mapsto> (meal_count dm d + 1, fadd E (meal_total dm d) a)), e, a,
                        \<not> fgt a (Finite 100) \<and> truthy (expense_invoice e) \<and> meal_count dm d + 1 \<le> 3,
                        (if fgt a (Finite 100) then [Exceeds_cap c_meals (Finite 100)] else []) @
                        (if \<not> truthy (expense_invoice e) then [Needs_invoice c_meals] else []) @
                        (if meal_count dm d + 1 > 3 then [Exceeds_daily_count 3] else [])))
             else
               Inr (dm, e, a, \<not> fgt a (category_cap c) \<and> truthy (expense_invoice e),
                    (if fgt a (category_cap c) then [Exceeds_cap c (category_cap c)] else []) @
                    (if \<not> truthy (expense_invoice e) then [Needs_invoice c] else [])))))"
proof (cases "expense_amount E e")
  case (Inl err)
  then show ?thesis by (simp add: judge_def)
next
  case a: (Inr a)
  show ?thesis
  proof (cases "expense_category e")
    case (Inl err)
    with a show ?thesis by (simp add: judge_def expense_category_def)
  next
    case c: (Inr c)
    show ?thesis
    proof (cases "c = c_meals")
      case True
      show ?thesis
      proof (cases "expense_date E e")
        case (Inl err)
        with a c True show ?thesis
          by (simp add: judge_def expense_category_def expense_date_def rule_meals Let_def
              split: prod.splits)
      next
        case (Inr d)
        with a c True judge_meal [of E e a d dm] show ?thesis by simp
      qed
    next
      case False
      from resolve_category_in_rules [OF c [unfolded expense_category_def]]
      obtain r where r: "map_of reimbursement_rules c = Some r" by blast
      then have "category_cap c = cap r" by (simp add: category_cap_def)
      with a c False judge_other [OF a c False r, of dm] show ?thesis by simp
    qed
  qed
qed

lemma py_float_env:
  "str_to_float E' = str_to_float E \<Longrightarrow> nearest_double E' = nearest_double E \<Longrightarrow>
   py_float E' v = py_float E v"
  by (cases v) (simp_all add: round_double_def)

lemma fadd_env: "nearest_double E' = nearest_double E \<Longrightarrow> fadd E' a b = fadd E a b"
  by (cases a; cases b) (simp_all add: round_double_def)

lemma fadd_env_fun: "nearest_double E' = nearest_double E \<Longrightarrow> fadd E' = fadd E"
  by (intro ext) (rule fadd_env)

lemma judge_env:
  assumes "str_to_float E' = str_to_float E" and "nearest_double E' = nearest_double E"
    and "today E' = today E \<or> dated x"
  shows "judge E' dm x = judge E dm x"
proof (cases x)
  case (JObj e)
  have a: "expense_amount E' e = expense_amount E e"
    by (simp add: expense_amount_def py_float_env [OF assms(1,2)])
  have d: "expense_date E' e = expense_date E e"
    using assms(3) JObj by (auto simp: dated_def dict_get_def expense_date_def split: option.splits)
  show ?thesis
    unfolding JObj judge_JObj a d fadd_env_fun [OF assms(2)] by (rule refl)
qed (simp_all add: judge_def)

lemma check_loop_env:
  assumes "str_to_float E' = str_to_float E" and "nearest_double E' = nearest_double E"
    and "today E' = today E \<or> list_all dated xs"
  shows "check_loop E' st xs = check_loop E st xs"
  using assms(3)
proof (induction xs arbitrary: st)
  case Nil
  show ?case by simp
next
  case (Cons x xs)
  from Cons.prems have x: "today E' = today E \<or> dated x"
    and xs: "today E' = today E \<or> list_all dated xs"
    by auto
  have "check_item E' st x = check_item E st x"
    unfolding check_item_def judge_env [OF assms(1,2) x] fadd_env_fun [OF assms(2)]
    by (rule refl)
  with Cons.IH [OF xs] show ?case by (simp split: sum.splits)
qed

subsection \<open>When the loop raises\<close>


lemma key_distinct:
  "k_category \<noteq> k_amount" "k_category \<noteq> k_date" "k_category \<noteq> k_has_invoice"
  "k_amount \<noteq> k_category" "k_amount \<noteq> k_date" "k_amount \<noteq> k_has_invoice"
  "k_date \<noteq> k_category" "k_date \<noteq> k_amount" "k_date \<noteq> k_has_invoice"
  "k_has_invoice \<noteq> k_category" "k_has_invoice \<noteq> k_amount" "k_has_invoice \<noteq> k_date"
  by (simp_all add: finance_names)

lemma dict_get_append:
  "map_of e k = None \<Longrightarrow>
   dict_get (e @ [(k, v)]) k' dflt = (if k' = k then v else dict_get e k' dflt)"
  by (auto simp: dict_get_def map_add_def split: option.splits)

lemma judgement_fields:
  assumes "expense_amount E e' = expense_amount E e"
    and "expense_category e' = expense_category e"
    and "expense_date E e' = expense_date E e"
    and "expense_invoice e' = expense_invoice e"
  shows "judgement E dm (JObj e') = judgement E dm (JObj e)"
  unfolding judgement_def judge_JObj assms
  by (simp split: sum.splits)

lemma judge_total: "(\<exists>res. judge E dm x = Inr res) \<longleftrightarrow> evaluable E x"
proof (cases x)
  case (JObj e)
  show ?thesis
  proof (cases "expense_amount E e")
    case (Inl err)
    then show ?thesis by (simp add: JObj judge_JObj evaluable_def)
  next
    case a: (Inr a)
    show ?thesis
    proof (cases "expense_category e")
      case (Inl err)
      with a show ?thesis by (simp add: JObj judge_JObj evaluable_def)
    next
      case c: (Inr c)
      show ?thesis
      proof (cases "c = c_meals")
        case True
        with a c show ?thesis
          by (cases "expense_date E e") (simp_all add: JObj judge_JObj evaluable_def)
      next
        case False
        with a c show ?thesis by (simp add: JObj judge_JObj evaluable_def)
      qed
    qed
  qed
qed (simp_all add: judge_def evaluable_def)

lemma check_item_total: "(\<exists>st'. check_item E st x = Inr st') \<longleftrightarrow> evaluable E x"
proof -
  have "(\<exists>st'. check_item E st x = Inr st') \<longleftrightarrow> (\<exists>res. judge E (daily st) x = Inr res)"
    by (auto simp: check_item_def split: sum.splits)
  with judge_total [of E "daily st" x] show ?thesis by simp
qed

lemma check_loop_total:
  "(\<exists>st'. check_loop E st xs = Inr st') \<longleftrightarrow> list_all (evaluable E) xs"
proof (induction xs arbitrary: st)
  case Nil
  show ?case by simp
next
  case (Cons x xs)
  show ?case
  proof (cases "check_item E st x")
    case (Inl err)
    with check_item_total [of E st x] show ?thesis by simp
  next
    case (Inr st1)
    with check_item_total [of E st x] have "evaluable E x" by auto
    with Inr Cons.IH [of st1] show ?thesis by simp
  qed
qed

lemma check_compliance_total:
  "(\<exists>r. check_compliance E (JList xs) = Inr r) \<longleftrightarrow> list_all (evaluable E) xs"
proof -
  have "(\<exists>r. check_compliance E (JList xs) = Inr r) \<longleftrightarrow>
        (\<exists>st'. check_loop E init_state xs = Inr st')"
    by (auto simp: check_compliance_def split: sum.splits)
  then show ?thesis by (simp add: check_loop_total)
qed


subsection \<open>Meals on one date\<close>


lemma check_item_meal_on:
  assumes "meal_on E e d a"
  shows "\<exists>st'. check_item E st (JObj e) = Inr st' \<and>
     compliant_expenses st' = compliant_expenses st @
        filter v_compliant [meal_verdict e a (meal_count (daily st) d + 1)] \<and>
     non_compliant_expenses st' = non_compliant_expenses st @
        filter (\<lambda>v. \<not> v_compliant v) [meal_verdict e a (meal_count (daily st) d + 1)] \<and>
     meal_count (daily st') d = meal_count (daily st) d + 1"
proof -
  from assms have f: "expense_amount E e = Inr a" "expense_category e = Inr c_meals"
    "expense_date E e = Inr d"
    by (simp_all add: meal_on_def)
  show ?thesis
    by (simp add: check_item_def judge_meal [OF f] meal_verdict_def meal_reasons_def
        meal_count_def)
qed

lemma check_loop_meals:
  assumes "\<forall>ea\<in>set eas. meal_on E (fst ea) d (snd ea)"
  shows "\<exists>st'. check_loop E st (map (\<lambda>ea. JObj (fst ea)) eas) = Inr st' \<and>
     compliant_expenses st' = compliant_expenses st @
        filter v_compliant (meal_verdicts eas (meal_count (daily st) d)) \<and>
     non_compliant_expenses st' = non_compliant_expenses st @
        filter (\<lambda>v. \<not> v_compliant v) (meal_verdicts eas (meal_count (daily st) d))"
  using assms
proof (induction eas arbitrary: st)
  case Nil
  show ?case by simp
next
  case (Cons ea eas)
  obtain e a where ea: "ea = (e, a)" by (cases ea)
  from Cons.prems ea have m: "meal_on E e d a" by simp
  from check_item_meal_on [OF m, of st] obtain st1 where
    s1: "check_item E st (JObj e) = Inr st1" and
    c1: "compliant_expenses st1 = compliant_expenses st @
        filter v_compliant [meal_verdict e a (meal_count (daily st) d + 1)]" and
    n1: "non_compliant_expenses st1 = non_compliant_expenses st @
        filter (\<lambda>v. \<not> v_compliant v) [meal_verdict e a (meal_count (daily st) d + 1)]" and
    k1: "meal_count (daily st1) d = meal_count (daily st) d + 1"
    by blast
  from Cons.prems have "\<forall>ea\<in>set eas. meal_on E (fst ea) d (snd ea)" by simp
  from Cons.IH [OF this, of st1] obtain st' where
    s: "check_loop E st1 (map (\<lambda>ea. JObj (fst ea)) eas) = Inr st'" and
    c: "compliant_expenses st' = compliant_expenses st1 @
        filter v_compliant (meal_verdicts eas (meal_count (daily st1) d))" and
    n: "non_compliant_expenses st' = non_compliant_expenses st1 @
        filter (\<lambda>v. \<not> v_compliant v) (meal_verdicts eas (meal_count (daily st1) d))"
    by blast
  have "check_loop E st (map (\<lambda>ea. JObj (fst ea)) (ea # eas)) = Inr st'"
    using s1 s ea by simp
  moreover have "compliant_expenses st' = compliant_expenses st @
        filter v_compliant (meal_verdicts (ea # eas) (meal_count (daily st) d))"
    using c c1 k1 ea by simp
  moreover have "non_compliant_expenses st' = non_compliant_expenses st @
        filter (\<lambda>v. \<not> v_compliant v) (meal_verdicts (ea # eas) (meal_count (daily st) d))"
    using n n1 k1 ea by simp
  ultimately show ?case by blast
qed

lemma meal_reasons_count:
  "Exceeds_daily_count 3 \<in> set (meal_reasons e a n) \<longleftrightarrow> 3 < n"
  by (simp add: meal_reasons_def)


subsection \<open>The claims\<close>

text \<open>
  C1, as the code has it. Whenever the check of a batch returns a result, its compliant
  count and its non-compliant count add up to the item count. Its compliant total is the
  floating-point sum of the amounts (read as line 60 reads them) of the items in the
  compliant list, added one by one from 0.0 in the order of the list: it carries the
  rounding of each addition, and it is NaN when that sum is. The total compares equal
  (\<open>==\<close>) to that sum exactly when it is not NaN.
\<close>

theorem batch_counts_and_total:
  assumes "check_compliance E expenses = Inr r"
  shows "compliant_count r + non_compliant_count r = item_count r \<and>
         (\<exists>as. map (\<lambda>v. expense_amount E (v_expense v)) (compliant_items r) = map Inr as \<and>
               compliant_total_amount r = py_sum E as \<and>
               float_eq (compliant_total_amount r) (py_sum E as) =
                 (compliant_total_amount r \<noteq> NaN))"
proof -
  from check_compliance_Inr [OF assms] obtain xs vs as where
    vs: "map (\<lambda>v. JObj (v_expense v)) vs = xs" and
    c: "compliant_items r = filter v_compliant vs" and
    n: "non_compliant_items r = filter (\<lambda>v. \<not> v_compliant v) vs" and
    as: "map (\<lambda>v. expense_amount E (v_expense v)) (compliant_items r) = map Inr as" and
    t: "compliant_total_amount r = py_sum E as" and
    counts: "item_count r = length xs" "compliant_count r = length (compliant_items r)"
      "non_compliant_count r = length (non_compliant_items r)"
    by blast
  have "length (filter v_compliant vs) + length (filter (\<lambda>v. \<not> v_compliant v) vs) = length vs"
    by (rule sum_length_filter_compl)
  moreover have "length vs = length xs"
    using vs by auto
  ultimately have "compliant_count r + non_compliant_count r = item_count r"
    using c n counts by simp
  moreover have "float_eq (compliant_total_amount r) (py_sum E as) =
      (compliant_total_amount r \<noteq> NaN)"
    using t by (simp add: float_eq_def)
  ultimately show ?thesis
    using as t by blast
qed

text \<open>
  The claim as stated fails: \<open>json.loads\<close> accepts \<open>NaN\<close>, a transport expense with
  an invoice and the amount NaN is not above the cap and is filed as compliant, and the
  total, NaN, does not compare equal to the sum of the compliant amounts.
\<close>

theorem nan_amount_total:
  "check_compliance example_env (JList [JObj (transport_item NaN)]) =
     Inr \<lparr>compliant_items = [compliant_verdict (transport_item NaN)],
          non_compliant_items = [],
          compliant_total_amount = NaN, item_count = 1, compliant_count = 1,
          non_compliant_count = 0\<rparr> \<and>
   py_sum example_env [NaN] = NaN \<and>
   \<not> float_eq NaN (py_sum example_env [NaN])"
proof -
  have 1: "judge E dm (JObj (transport_item NaN)) = Inr (dm, transport_item NaN, NaN, True, [])"
    for E dm
    by (simp add: judge_transport_item)
  have "check_compliance example_env (JList [JObj (transport_item NaN)]) =
     Inr \<lparr>compliant_items = [compliant_verdict (transport_item NaN)],
          non_compliant_items = [],
          compliant_total_amount = NaN, item_count = 1, compliant_count = 1,
          non_compliant_count = 0\<rparr>"
    by (simp add: check_compliance_def init_state_def check_item_compliant [OF 1])
  then show ?thesis
    by (simp add: py_sum_def float_eq_def)
qed

text \<open>
  The batch of two transport expenses of 250 and 350, both with an invoice: the first is
  compliant, the second exceeds the cap of 300.
\<close>

theorem batch_counts_and_total_witness:
  "check_compliance example_env
     (JList [JObj (transport_item (Finite 250)), JObj (transport_item (Finite 350))]) =
     Inr \<lparr>compliant_items = [compliant_verdict (transport_item (Finite 250))],
          non_compliant_items =
            [rejected_verdict (transport_item (Finite 350))
               [Exceeds_cap c_transport (Finite 300)]],
          compliant_total_amount = Finite 250, item_count = 2, compliant_count = 1,
          non_compliant_count = 1\<rparr> \<and>
   (1::nat) + 1 = 2 \<and>
   (\<exists>as. map (\<lambda>v. expense_amount example_env (v_expense v))
           [compliant_verdict (transport_item (Finite 250))] = map Inr as \<and>
         Finite 250 = py_sum example_env as \<and>
         float_eq (Finite 250) (py_sum example_env as))"
proof -
  have 1: "judge E dm (JObj (transport_item (Finite 250))) =
      Inr (dm, transport_item (Finite 250), Finite 250, True, [])" for E dm
    by (simp add: judge_transport_item)
  have 2: "judge E dm (JObj (transport_item (Finite 350))) =
      Inr (dm, transport_item (Finite 350), Finite 350, False,
           [Exceeds_cap c_transport (Finite 300)])" for E dm
    by (simp add: judge_transport_item)
  have r: "check_compliance example_env
        (JList [JObj (transport_item (Finite 250)), JObj (transport_item (Finite 350))]) =
     Inr \<lparr>compliant_items = [compliant_verdict (transport_item (Finite 250))],
          non_compliant_items =
            [rejected_verdict (transport_item (Finite 350))
               [Exceeds_cap c_transport (Finite 300)]],
          compliant_total_amount = Finite 250, item_count = 2, compliant_count = 1,
          non_compliant_count = 1\<rparr>"
    by (simp add: check_compliance_def init_state_def check_item_compliant [OF 1]
        check_item_rejected [OF 2] round_double_def)
  from batch_counts_and_total [OF r] r show ?thesis by simp
qed

text \<open>
  C2. A meal always adds one to the count of its date, whatever the cap and the invoice
  checks said, and it gets the daily-count reason exactly when the count it reaches is
  above 3; reaching a count above 3 makes it non-compliant. So, of four meals on one date,
  whatever their amounts, the first three do not get the daily-count reason and the
  fourth gets it and is rejected; if each of the four passes the cap and the invoice
  checks, the first three are compliant and the fourth is rejected with the daily-count
  reason alone.
\<close>

theorem meal_count_rule:
  "(expense_category e = Inr c_meals \<and> expense_date E e = Inr d \<and>
    judge E dm (JObj e) = Inr (dm', e', a, ok, rs) \<longrightarrow>
      dm' = dm(d \<mapsto> (meal_count dm d + 1, fadd E (meal_total dm d) a)) \<and>
      meal_count dm' d = meal_count dm d + 1 \<and>
      (Exceeds_daily_count 3 \<in> set rs \<longleftrightarrow> 3 < meal_count dm' d) \<and>
      (3 < meal_count dm' d \<longrightarrow> \<not> ok)) \<and>
   (meal_on E e1 d a1 \<and> meal_on E e2 d a2 \<and> meal_on E e3 d a3 \<and> meal_on E e4 d a4 \<longrightarrow>
      (\<exists>r. check_compliance E (JList [JObj e1, JObj e2, JObj e3, JObj e4]) = Inr r \<and>
           compliant_items r =
             filter v_compliant [meal_verdict e1 a1 1, meal_verdict e2 a2 2,
                                 meal_verdict e3 a3 3, meal_verdict e4 a4 4] \<and>
           non_compliant_items r =
             filter (\<lambda>v. \<not> v_compliant v) [meal_verdict e1 a1 1, meal_verdict e2 a2 2,
                                 meal_verdict e3 a3 3, meal_verdict e4 a4 4]) \<and>
      Exceeds_daily_count 3 \<notin> set (v_reasons (meal_verdict e1 a1 1)) \<and>
      Exceeds_daily_count 3 \<notin> set (v_reasons (meal_verdict e2 a2 2)) \<and>
      Exceeds_daily_count 3 \<notin> set (v_reasons (meal_verdict e3 a3 3)) \<and>
      Exceeds_daily_count 3 \<in> set (v_reasons (meal_verdict e4 a4 4)) \<and>
      \<not> v_compliant (meal_verdict e4 a4 4)) \<and>
   (accepted_meal E e1 d a1 \<and> accepted_meal E e2 d a2 \<and> accepted_meal E e3 d a3 \<and>
    accepted_meal E e4 d a4 \<longrightarrow>
      check_compliance E (JList [JObj e1, JObj e2, JObj e3, JObj e4]) =
        Inr \<lparr>compliant_items = [compliant_verdict e1, compliant_verdict e2, compliant_verdict e3],
             non_compliant_items = [rejected_verdict e4 [Exceeds_daily_count 3]],
             compliant_total_amount = py_sum E [a1, a2, a3],
             item_count = 4, compliant_count = 3, non_compliant_count = 1\<rparr>)"
proof (intro conjI impI)
  assume h: "expense_category e = Inr c_meals \<and> expense_date E e = Inr d \<and>
    judge E dm (JObj e) = Inr (dm', e', a, ok, rs)"
  then have j: "judge E dm (JObj e) = Inr (dm', e', a, ok, rs)" by simp
  from judge_Inr [OF j] have e': "e' = e" and amt: "expense_amount E e = Inr a"
    by simp_all
  from h have c: "expense_category e = Inr c_meals" and d: "expense_date E e = Inr d"
    by simp_all
  from judge_meal [OF amt c d, of dm] j
  have dm': "dm' = dm(d \<mapsto> (meal_count dm d + 1, fadd E (meal_total dm d) a))"
    and ok: "ok = (\<not> fgt a (Finite 100) \<and> truthy (expense_invoice e) \<and> meal_count dm d + 1 \<le> 3)"
    and rs: "rs = (if fgt a (Finite 100) then [Exceeds_cap c_meals (Finite 100)] else []) @
         (if \<not> truthy (expense_invoice e) then [Needs_invoice c_meals] else []) @
         (if meal_count dm d + 1 > 3 then [Exceeds_daily_count 3] else [])"
    by simp_all
  show "dm' = dm(d \<mapsto> (meal_count dm d + 1, fadd E (meal_total dm d) a))"
    by (rule dm')
  show cnt: "meal_count dm' d = meal_count dm d + 1"
    by (simp add: dm' meal_count_def)
  show "Exceeds_daily_count 3 \<in> set rs \<longleftrightarrow> 3 < meal_count dm' d"
    by (simp add: rs cnt)
  show "\<not> ok" if "3 < meal_count dm' d"
    using that by (simp add: ok cnt)
next
  assume "meal_on E e1 d a1 \<and> meal_on E e2 d a2 \<and> meal_on E e3 d a3 \<and> meal_on E e4 d a4"
  then have m: "meal_on E e1 d a1" "meal_on E e2 d a2" "meal_on E e3 d a3" "meal_on E e4 d a4"
    by simp_all
  let ?eas = "[(e1, a1), (e2, a2), (e3, a3), (e4, a4)]"
  have "\<forall>ea\<in>set ?eas. meal_on E (fst ea) d (snd ea)"
    using m by simp
  from check_loop_meals [OF this, of init_state] obtain st' where
    s: "check_loop E init_state [JObj e1, JObj e2, JObj e3, JObj e4] = Inr st'" and
    c: "compliant_expenses st' = compliant_expenses init_state @
        filter v_compliant (meal_verdicts ?eas (meal_count (daily init_state) d))" and
    n: "non_compliant_expenses st' = non_compliant_expenses init_state @
        filter (\<lambda>v. \<not> v_compliant v) (meal_verdicts ?eas (meal_count (daily init_state) d))"
    by auto
  have k: "meal_count (daily init_state) d = 0"
    by (simp add: init_state_def meal_count_def)
  have vs: "meal_verdicts ?eas 0 = [meal_verdict e1 a1 1, meal_verdict e2 a2 2,
                                 meal_verdict e3 a3 3, meal_verdict e4 a4 4]"
    by (simp add: eval_nat_numeral)
  have i: "compliant_expenses init_state = []" "non_compliant_expenses init_state = []"
    by (simp_all add: init_state_def)
  show "\<exists>r. check_compliance E (JList [JObj e1, JObj e2, JObj e3, JObj e4]) = Inr r \<and>
           compliant_items r =
             filter v_compliant [meal_verdict e1 a1 1, meal_verdict e2 a2 2,
                                 meal_verdict e3 a3 3, meal_verdict e4 a4 4] \<and>
           non_compliant_items r =
             filter (\<lambda>v. \<not> v_compliant v) [meal_verdict e1 a1 1, meal_verdict e2 a2 2,
                                 meal_verdict e3 a3 3, meal_verdict e4 a4 4]"
    unfolding check_compliance_def py_iter.simps sum.case s c n k vs i
    by (simp del: filter.simps)
next
  show "Exceeds_daily_count 3 \<notin> set (v_reasons (meal_verdict e1 a1 1))"
    by (simp add: meal_verdict_def meal_reasons_count)
  show "Exceeds_daily_count 3 \<notin> set (v_reasons (meal_verdict e2 a2 2))"
    by (simp add: meal_verdict_def meal_reasons_count)
  show "Exceeds_daily_count 3 \<notin> set (v_reasons (meal_verdict e3 a3 3))"
    by (simp add: meal_verdict_def meal_reasons_count)
  show "Exceeds_daily_count 3 \<in> set (v_reasons (meal_verdict e4 a4 4))"
    by (simp add: meal_verdict_def meal_reasons_count)
  show "\<not> v_compliant (meal_verdict e4 a4 4)"
    by (simp add: meal_verdict_def meal_reasons_def)
next
  assume "accepted_meal E e1 d a1 \<and> accepted_meal E e2 d a2 \<and> accepted_meal E e3 d a3 \<and>
    accepted_meal E e4 d a4"
  then have m: "accepted_meal E e1 d a1" "accepted_meal E e2 d a2" "accepted_meal E e3 d a3"
    "accepted_meal E e4 d a4"
    by simp_all
  show "check_compliance E (JList [JObj e1, JObj e2, JObj e3, JObj e4]) =
        Inr \<lparr>compliant_items = [compliant_verdict e1, compliant_verdict e2, compliant_verdict e3],
             non_compliant_items = [rejected_verdict e4 [Exceeds_daily_count 3]],
             compliant_total_amount = py_sum E [a1, a2, a3],
             item_count = 4, compliant_count = 3, non_compliant_count = 1\<rparr>"
    by (simp add: check_compliance_def init_state_def meal_count_def meal_total_def py_sum_def
        check_item_accepted_meal [OF m(1)] check_item_accepted_meal [OF m(2)]
        check_item_accepted_meal [OF m(3)] check_item_accepted_meal [OF m(4)])
qed

text \<open>
  A meal of 120 without an invoice, as the fourth of its date, fails all three checks and
  still moves the count from 3 to 4; and four meals of 10, 100, 30 and 5 on 2024-01-01.
\<close>

theorem meal_count_rule_witness:
  "judge example_env (Map.empty(KStr day1 \<mapsto> (3, Finite 90)))
      (JObj [(k_category, JStr c_meals), (k_amount, JFloat (Finite 120)), (k_date, JStr day1)]) =
     Inr ((Map.empty(KStr day1 \<mapsto> (3, Finite 90)))(KStr day1 \<mapsto> (4, Finite 210)),
          [(k_category, JStr c_meals), (k_amount, JFloat (Finite 120)), (k_date, JStr day1)], Finite 120, False,
          [Exceeds_cap c_meals (Finite 100), Needs_invoice c_meals, Exceeds_daily_count 3]) \<and>
   meal_on example_env (meal_item (Finite 10) day1) (KStr day1) (Finite 10) \<and>
   meal_on example_env (meal_item (Finite 100) day1) (KStr day1) (Finite 100) \<and>
   meal_on example_env (meal_item (Finite 30) day1) (KStr day1) (Finite 30) \<and>
   meal_on example_env (meal_item (Finite 5) day1) (KStr day1) (Finite 5) \<and>
   Exceeds_daily_count 3 \<in> set (v_reasons (meal_verdict (meal_item (Finite 5) day1) (Finite 5) 4)) \<and>
   check_compliance example_env
      (JList [JObj (meal_item (Finite 10) day1), JObj (meal_item (Finite 100) day1), JObj (meal_item (Finite 30) day1),
              JObj (meal_item (Finite 5) day1)]) =
     Inr \<lparr>compliant_items = [compliant_verdict (meal_item (Finite 10) day1),
            compliant_verdict (meal_item (Finite 100) day1), compliant_verdict (meal_item (Finite 30) day1)],
          non_compliant_items = [rejected_verdict (meal_item (Finite 5) day1) [Exceeds_daily_count 3]],
          compliant_total_amount = Finite 140,
          item_count = 4, compliant_count = 3, non_compliant_count = 1\<rparr>"
proof -
  let ?e = "[(k_category, JStr c_meals), (k_amount, JFloat (Finite 120)), (k_date, JStr day1)]"
  let ?dm = "Map.empty(KStr day1 \<mapsto> (3::nat, Finite 90))"
  have f: "expense_amount example_env ?e = Inr (Finite 120)" "expense_category ?e = Inr c_meals"
    "expense_date example_env ?e = Inr (KStr day1)" "expense_invoice ?e = JBool False"
    by (simp_all add: expense_amount_def expense_category_def expense_date_def
        expense_invoice_def dict_get_def reimbursement_rules_def finance_names)
  have j: "judge example_env ?dm (JObj ?e) =
     Inr (?dm(KStr day1 \<mapsto> (4, Finite 210)), ?e, Finite 120, False,
          [Exceeds_cap c_meals (Finite 100), Needs_invoice c_meals, Exceeds_daily_count 3])"
    by (simp add: judge_meal [OF f(1,2,3)] f(4) meal_count_def meal_total_def round_double_def)
  have m: "accepted_meal example_env (meal_item (Finite 10) day1) (KStr day1) (Finite 10)"
    "accepted_meal example_env (meal_item (Finite 100) day1) (KStr day1) (Finite 100)"
    "accepted_meal example_env (meal_item (Finite 30) day1) (KStr day1) (Finite 30)"
    "accepted_meal example_env (meal_item (Finite 5) day1) (KStr day1) (Finite 5)"
    by (simp_all add: accepted_meal_def meal_item_fields)
  have o: "meal_on example_env (meal_item (Finite 10) day1) (KStr day1) (Finite 10)"
    "meal_on example_env (meal_item (Finite 100) day1) (KStr day1) (Finite 100)"
    "meal_on example_env (meal_item (Finite 30) day1) (KStr day1) (Finite 30)"
    "meal_on example_env (meal_item (Finite 5) day1) (KStr day1) (Finite 5)"
    by (simp_all add: meal_on_def meal_item_fields)
  note th = meal_count_rule [of ?e example_env "KStr day1" ?dm "?dm(KStr day1 \<mapsto> (4, Finite 210))" ?e "Finite 120"
      False "[Exceeds_cap c_meals (Finite 100), Needs_invoice c_meals, Exceeds_daily_count 3]"
      "meal_item (Finite 10) day1" "Finite 10" "meal_item (Finite 100) day1" "Finite 100"
      "meal_item (Finite 30) day1" "Finite 30" "meal_item (Finite 5) day1" "Finite 5"]
  have "meal_on example_env (meal_item (Finite 10) day1) (KStr day1) (Finite 10) \<and>
      meal_on example_env (meal_item (Finite 100) day1) (KStr day1) (Finite 100) \<and>
      meal_on example_env (meal_item (Finite 30) day1) (KStr day1) (Finite 30) \<and>
      meal_on example_env (meal_item (Finite 5) day1) (KStr day1) (Finite 5)"
    using o by (intro conjI)
  from mp [OF conjunct1 [OF conjunct2 [OF th]] this]
  have x: "Exceeds_daily_count 3 \<in> set (v_reasons (meal_verdict (meal_item (Finite 5) day1) (Finite 5) 4))"
    by (elim conjE)
  have "accepted_meal example_env (meal_item (Finite 10) day1) (KStr day1) (Finite 10) \<and>
      accepted_meal example_env (meal_item (Finite 100) day1) (KStr day1) (Finite 100) \<and>
      accepted_meal example_env (meal_item (Finite 30) day1) (KStr day1) (Finite 30) \<and>
      accepted_meal example_env (meal_item (Finite 5) day1) (KStr day1) (Finite 5)"
    using m by (intro conjI)
  from mp [OF conjunct2 [OF conjunct2 [OF th]] this]
  have r: "check_compliance example_env
      (JList [JObj (meal_item (Finite 10) day1), JObj (meal_item (Finite 100) day1), JObj (meal_item (Finite 30) day1),
              JObj (meal_item (Finite 5) day1)]) =
     Inr \<lparr>compliant_items = [compliant_verdict (meal_item (Finite 10) day1),
            compliant_verdict (meal_item (Finite 100) day1), compliant_verdict (meal_item (Finite 30) day1)],
          non_compliant_items = [rejected_verdict (meal_item (Finite 5) day1) [Exceeds_daily_count 3]],
          compliant_total_amount = Finite 140,
          item_count = 4, compliant_count = 3, non_compliant_count = 1\<rparr>"
    by (simp add: py_sum_def round_double_def)
  from j o x r show ?thesis by (intro conjI)
qed


subsection \<open>Exceptions and serialisation\<close>


lemma py_float_error: "py_float E v = Inl err \<Longrightarrow> err \<noteq> JSONDecodeError"
  by (cases v) (auto split: pyfloat.splits option.splits)

lemma resolve_category_error: "resolve_category v = Inl err \<Longrightarrow> err \<noteq> JSONDecodeError"
  by (cases v) auto

lemma py_hashkey_error: "py_hashkey v = Inl err \<Longrightarrow> err \<noteq> JSONDecodeError"
  by (cases v) auto

lemma judge_error:
  assumes "judge E dm x = Inl err"
  shows "err \<noteq> JSONDecodeError"
proof (cases x)
  case (JObj e)
  with assms py_float_error [of E "dict_get e k_amount (JInt 0)"]
    resolve_category_error [of "dict_get e k_category (JStr c_other)"]
    py_hashkey_error [of "dict_get e k_date (JStr (today E))"]
  show ?thesis
    by (auto simp: judge_JObj expense_amount_def expense_category_def expense_date_def
        split: sum.splits if_splits)
qed (use assms in \<open>auto simp: judge_def\<close>)

lemma check_item_error: "check_item E st x = Inl err \<Longrightarrow> err \<noteq> JSONDecodeError"
  by (auto simp: check_item_def split: sum.splits prod.splits if_splits dest: judge_error)

lemma check_loop_error: "check_loop E st xs = Inl err \<Longrightarrow> err \<noteq> JSONDecodeError"
  by (induction xs arbitrary: st) (auto split: sum.splits dest: check_item_error)

lemma py_iter_error: "py_iter v = Inl err \<Longrightarrow> err \<noteq> JSONDecodeError"
  by (cases v) auto

lemma check_compliance_error:
  "check_compliance E expenses = Inl err \<Longrightarrow> err \<noteq> JSONDecodeError"
  by (auto simp: check_compliance_def split: sum.splits dest: py_iter_error check_loop_error)











text \<open>
  C7, as the code has it. An expense without an amount is judged as the same expense with
  the amount 0, and an expense without a date as the same expense dated today. A batch
  gets a result exactly when every item can be processed; an amount that is there and that
  \<open>float\<close> does not convert (\<open>null\<close>, a list, a dictionary, a string that is not a
  number, an integer beyond the range of the doubles) is not read as 0: the item raises
  \<open>TypeError\<close>, \<open>ValueError\<close> or \<open>OverflowError\<close>, and \<open>invoke\<close> returns the message
  of the failed request in place of a result.
\<close>

theorem missing_fields_default:
  "(map_of e k_amount = None \<longrightarrow>
      expense_amount E e = Inr (Finite 0) \<and>
      judgement E dm (JObj e) = judgement E dm (JObj (e @ [(k_amount, JInt 0)]))) \<and>
   (map_of e k_date = None \<longrightarrow>
      judgement E dm (JObj e) = judgement E dm (JObj (e @ [(k_date, JStr (today E))]))) \<and>
   ((\<exists>r. check_compliance E (JList xs) = Inr r) \<longleftrightarrow> list_all (evaluable E) xs) \<and>
   (map_of e k_amount = Some v \<and> py_float E v = Inl err \<longrightarrow>
      \<not> evaluable E (JObj e) \<and> judge E dm (JObj e) = Inl err) \<and>
   (map_of q k_expenses = Some ys \<and> check_compliance E ys = Inl err \<longrightarrow>
      invoke E (JObj q) sid = Error_text err)"
proof (intro conjI impI)
  assume m: "map_of e k_amount = None"
  then have g: "dict_get e k_amount (JInt 0) = JInt 0"
    by (simp add: dict_get_def)
  then show "expense_amount E e = Inr (Finite 0)"
    by (simp add: expense_amount_def round_double_def)
  show "judgement E dm (JObj e) = judgement E dm (JObj (e @ [(k_amount, JInt 0)]))"
    by (intro judgement_fields [symmetric])
      (simp_all add: expense_amount_def expense_category_def expense_date_def
        expense_invoice_def dict_get_append [OF m] g key_distinct)
next
  assume m: "map_of e k_date = None"
  then have g: "dict_get e k_date (JStr (today E)) = JStr (today E)"
    by (simp add: dict_get_def)
  show "judgement E dm (JObj e) = judgement E dm (JObj (e @ [(k_date, JStr (today E))]))"
    by (intro judgement_fields [symmetric])
      (simp_all add: expense_amount_def expense_category_def expense_date_def
        expense_invoice_def dict_get_append [OF m] g key_distinct)
next
  show "(\<exists>r. check_compliance E (JList xs) = Inr r) \<longleftrightarrow> list_all (evaluable E) xs"
    by (rule check_compliance_total)
next
  assume "map_of e k_amount = Some v \<and> py_float E v = Inl err"
  then have a: "expense_amount E e = Inl err"
    by (simp add: expense_amount_def dict_get_def)
  then show "\<not> evaluable E (JObj e)"
    by (simp add: evaluable_def)
  from a show "judge E dm (JObj e) = Inl err"
    by (simp add: judge_JObj)
next
  assume a: "map_of q k_expenses = Some ys \<and> check_compliance E ys = Inl err"
  then have "err \<noteq> JSONDecodeError"
    by (intro check_compliance_error [of E ys]) simp
  with a show "invoke E (JObj q) sid = Error_text err"
    by (simp add: invoke_def invoke_except_def)
qed

text \<open>
  The claim as stated fails: on a batch whose one item has the amount \<open>null\<close>, the check
  raises \<open>TypeError\<close> and \<open>invoke\<close> returns the failure message.
\<close>

theorem null_amount_fails_the_call:
  "check_compliance example_env
     (JList [JObj [(k_category, JStr c_transport), (k_amount, JNull),
                   (k_has_invoice, JBool True)]]) = Inl TypeError \<and>
   invoke example_env
     (JObj [(k_expenses,
        JList [JObj [(k_category, JStr c_transport), (k_amount, JNull),
                     (k_has_invoice, JBool True)]])]) [] = Error_text TypeError"
proof -
  let ?e = "[(k_category, JStr c_transport), (k_amount, JNull), (k_has_invoice, JBool True)]"
  have "expense_amount example_env ?e = Inl TypeError"
    by (simp add: expense_amount_def dict_get_def finance_names)
  then have "judge example_env dm (JObj ?e) = Inl TypeError" for dm
    by (simp add: judge_JObj)
  then have "check_compliance example_env (JList [JObj ?e]) = Inl TypeError"
    by (simp add: check_compliance_def check_item_def)
  then show ?thesis
    by (simp add: invoke_def invoke_except_def)
qed

text \<open>
  A transport expense with an invoice and neither amount nor date; the same with the
  amount \<open>null\<close>.
\<close>

theorem missing_fields_default_witness:
  "map_of [(k_category, JStr c_transport), (k_has_invoice, JBool True)] k_amount = None \<and>
   map_of [(k_category, JStr c_transport), (k_has_invoice, JBool True)] k_date = None \<and>
   judgement example_env Map.empty
     (JObj [(k_category, JStr c_transport), (k_has_invoice, JBool True)]) =
     Inr (Map.empty, Finite 0, True, []) \<and>
   judgement example_env Map.empty
     (JObj [(k_category, JStr c_transport), (k_has_invoice, JBool True), (k_amount, JInt 0)]) =
     Inr (Map.empty, Finite 0, True, []) \<and>
   judgement example_env Map.empty
     (JObj [(k_category, JStr c_transport), (k_has_invoice, JBool True),
            (k_date, JStr day1)]) =
     Inr (Map.empty, Finite 0, True, []) \<and>
   (\<exists>r. check_compliance example_env
      (JList [JObj [(k_category, JStr c_transport), (k_has_invoice, JBool True)]]) = Inr r) \<and>
   \<not> evaluable example_env
     (JObj [(k_category, JStr c_transport), (k_amount, JNull), (k_has_invoice, JBool True)]) \<and>
   invoke example_env
     (JObj [(k_expenses,
        JList [JObj [(k_category, JStr c_transport), (k_amount, JNull),
                     (k_has_invoice, JBool True)]])]) [] = Error_text TypeError"
proof -
  let ?e = "[(k_category, JStr c_transport), (k_has_invoice, JBool True)]"
  let ?n = "[(k_category, JStr c_transport), (k_amount, JNull), (k_has_invoice, JBool True)]"
  let ?q = "[(k_expenses, JList [JObj ?n])]"
  have m: "map_of ?e k_amount = None" "map_of ?e k_date = None"
    by (simp_all add: finance_names)
  have f: "expense_amount example_env ?e = Inr (Finite 0)"
    "expense_category ?e = Inr c_transport"
    "expense_invoice ?e = JBool True"
    by (simp_all add: expense_amount_def expense_category_def expense_invoice_def dict_get_def
        reimbursement_rules_def finance_names round_double_def)
  have j: "judgement example_env Map.empty (JObj ?e) = Inr (Map.empty, Finite 0, True, [])"
    by (simp add: judgement_def judge_other [OF f(1,2) transport_not_meals rule_transport] f(3))
  have t: "today example_env = day1"
    by (simp add: example_env_def)
  have ev: "evaluable example_env (JObj ?e)"
    by (simp add: evaluable_def f transport_not_meals)
  have n: "map_of ?n k_amount = Some JNull" "py_float example_env JNull = Inl TypeError"
    by (simp_all add: finance_names)
  have q: "map_of ?q k_expenses = Some (JList [JObj ?n])"
    by simp
  have "expense_amount example_env ?n = Inl TypeError"
    by (simp add: expense_amount_def dict_get_def finance_names)
  then have "judge example_env dm (JObj ?n) = Inl TypeError" for dm
    by (simp add: judge_JObj)
  then have c: "check_compliance example_env (JList [JObj ?n]) = Inl TypeError"
    by (simp add: check_compliance_def check_item_def)
  note at_e = missing_fields_default [of ?e example_env Map.empty "[JObj ?e]" JNull TypeError ?q
      "JList [JObj ?n]" "[]"]
  note at_n = missing_fields_default [of ?n example_env Map.empty "[]" JNull TypeError ?q
      "JList [JObj ?n]" "[]"]
  have j1: "judgement example_env Map.empty (JObj (?e @ [(k_amount, JInt 0)])) =
      Inr (Map.empty, Finite 0, True, [])"
    using at_e m(1) j by metis
  have j2: "judgement example_env Map.empty (JObj (?e @ [(k_date, JStr day1)])) =
      Inr (Map.empty, Finite 0, True, [])"
    using at_e m(2) j t by metis
  have r: "\<exists>r. check_compliance example_env (JList [JObj ?e]) = Inr r"
    using at_e ev by simp
  have ne: "\<not> evaluable example_env (JObj ?n)"
    using at_n n by blast
  have i: "invoke example_env (JObj ?q) [] = Error_text TypeError"
    using at_n q c by blast
  from j1 j2 have "judgement example_env Map.empty
       (JObj [(k_category, JStr c_transport), (k_has_invoice, JBool True), (k_amount, JInt 0)]) =
       Inr (Map.empty, Finite 0, True, [])"
    and "judgement example_env Map.empty
       (JObj [(k_category, JStr c_transport), (k_has_invoice, JBool True),
              (k_date, JStr day1)]) =
       Inr (Map.empty, Finite 0, True, [])"
    by simp_all
  with m j r ne i show ?thesis by (intro conjI)
qed

text \<open>
  An amount that is an integer beyond the range of the doubles, \<open>10 ** 400\<close>: the check
  raises \<open>OverflowError\<close> and \<open>invoke\<close> returns the failure message.
\<close>

lemma huge_amount_fails_the_call:
  "check_compliance example_env
     (JList [JObj [(k_category, JStr c_transport), (k_amount, JInt (10 ^ 400)),
                   (k_has_invoice, JBool True)]]) = Inl OverflowError \<and>
   invoke example_env
     (JObj [(k_expenses,
        JList [JObj [(k_category, JStr c_transport), (k_amount, JInt (10 ^ 400)),
                     (k_has_invoice, JBool True)]])]) [] = Error_text OverflowError"
proof -
  let ?e = "[(k_category, JStr c_transport), (k_amount, JInt (10 ^ 400)),
             (k_has_invoice, JBool True)]"
  have "py_float example_env (JInt (10 ^ 400)) = Inl OverflowError"
    by (simp add: round_double_def example_env_def example_nearest_def)
  then have "expense_amount example_env ?e = Inl OverflowError"
    by (simp add: expense_amount_def dict_get_def finance_names del: py_float.simps)
  then have "judge example_env dm (JObj ?e) = Inl OverflowError" for dm
    by (simp add: judge_JObj)
  then have "check_compliance example_env (JList [JObj ?e]) = Inl OverflowError"
    by (simp add: check_compliance_def check_item_def)
  then show ?thesis
    by (simp add: invoke_def invoke_except_def)
qed

text \<open>
  C9, as the code has it. The result is a function of the items in their order, of the
  conversion \<open>float\<close>, of the rounding of the machine's additions and of the evaluation
  date; when every item carries its own date, the evaluation date has no part in it. The
  two lists of a result are the verdicts of the items, each in submission order: the
  compliant ones in one list, the others in the other; the total is the floating-point sum,
  from 0.0 and from left to right, of the amounts of the first list, and the counts are the
  lengths.
\<close>

theorem result_follows_order_and_date:
  "(str_to_float E' = str_to_float E \<and> nearest_double E' = nearest_double E \<and>
    (today E' = today E \<or> list_all dated xs) \<longrightarrow>
      check_compliance E' (JList xs) = check_compliance E (JList xs)) \<and>
   (check_compliance E (JList xs) = Inr r \<longrightarrow>
      (\<exists>vs as. map (\<lambda>v. JObj (v_expense v)) vs = xs \<and>
         compliant_items r = filter v_compliant vs \<and>
         non_compliant_items r = filter (\<lambda>v. \<not> v_compliant v) vs \<and>
         map (\<lambda>v. expense_amount E (v_expense v)) (compliant_items r) = map Inr as \<and>
         compliant_total_amount r = py_sum E as \<and>
         item_count r = length xs \<and>
         compliant_count r = length (compliant_items r) \<and>
         non_compliant_count r = length (non_compliant_items r)))"
proof (intro conjI impI)
  assume "str_to_float E' = str_to_float E \<and> nearest_double E' = nearest_double E \<and>
    (today E' = today E \<or> list_all dated xs)"
  then have "check_loop E' init_state xs = check_loop E init_state xs"
    by (intro check_loop_env) simp_all
  then show "check_compliance E' (JList xs) = check_compliance E (JList xs)"
    by (simp add: check_compliance_def)
next
  assume "check_compliance E (JList xs) = Inr r"
  from check_compliance_Inr [OF this]
  show "\<exists>vs as. map (\<lambda>v. JObj (v_expense v)) vs = xs \<and>
         compliant_items r = filter v_compliant vs \<and>
         non_compliant_items r = filter (\<lambda>v. \<not> v_compliant v) vs \<and>
         map (\<lambda>v. expense_amount E (v_expense v)) (compliant_items r) = map Inr as \<and>
         compliant_total_amount r = py_sum E as \<and>
         item_count r = length xs \<and>
         compliant_count r = length (compliant_items r) \<and>
         non_compliant_count r = length (non_compliant_items r)"
    by auto
qed

text \<open>
  The claim as stated fails: three meals dated 2024-01-01 followed by a meal without a
  date give one result when checked on 2024-01-01 (the fourth is over the daily count)
  and another when checked on 2024-01-02 (all four are compliant).
\<close>

theorem evaluation_date_changes_result:
  "check_compliance example_env
     (JList [JObj (meal_item (Finite 50) day1), JObj (meal_item (Finite 50) day1), JObj (meal_item (Finite 50) day1),
             JObj (undated_meal_item (Finite 50))]) =
     Inr \<lparr>compliant_items = [compliant_verdict (meal_item (Finite 50) day1),
            compliant_verdict (meal_item (Finite 50) day1), compliant_verdict (meal_item (Finite 50) day1)],
          non_compliant_items =
            [rejected_verdict (undated_meal_item (Finite 50)) [Exceeds_daily_count 3]],
          compliant_total_amount = Finite 150,
          item_count = 4, compliant_count = 3, non_compliant_count = 1\<rparr> \<and>
   check_compliance (example_env\<lparr>today := day2\<rparr>)
     (JList [JObj (meal_item (Finite 50) day1), JObj (meal_item (Finite 50) day1), JObj (meal_item (Finite 50) day1),
             JObj (undated_meal_item (Finite 50))]) =
     Inr \<lparr>compliant_items = [compliant_verdict (meal_item (Finite 50) day1),
            compliant_verdict (meal_item (Finite 50) day1), compliant_verdict (meal_item (Finite 50) day1),
            compliant_verdict (undated_meal_item (Finite 50))],
          non_compliant_items = [],
          compliant_total_amount = Finite 200,
          item_count = 4, compliant_count = 4, non_compliant_count = 0\<rparr>"
proof -
  have dated: "accepted_meal E (meal_item (Finite 50) day1) (KStr day1) (Finite 50)" for E
    by (simp add: accepted_meal_def meal_item_fields)
  have undated: "accepted_meal E (undated_meal_item (Finite 50)) (KStr (today E)) (Finite 50)" for E
    by (simp add: accepted_meal_def undated_meal_item_fields)
  have t1: "today example_env = day1" and t2: "today (example_env\<lparr>today := day2\<rparr>) = day2"
    by (simp_all add: example_env_def)
  have ne: "day2 \<noteq> day1"
    by (simp add: day1_def day2_def)
  have one: "check_compliance example_env
     (JList [JObj (meal_item (Finite 50) day1), JObj (meal_item (Finite 50) day1), JObj (meal_item (Finite 50) day1),
             JObj (undated_meal_item (Finite 50))]) =
     Inr \<lparr>compliant_items = [compliant_verdict (meal_item (Finite 50) day1),
            compliant_verdict (meal_item (Finite 50) day1), compliant_verdict (meal_item (Finite 50) day1)],
          non_compliant_items =
            [rejected_verdict (undated_meal_item (Finite 50)) [Exceeds_daily_count 3]],
          compliant_total_amount = Finite 150,
          item_count = 4, compliant_count = 3, non_compliant_count = 1\<rparr>"
    by (simp add: check_compliance_def init_state_def meal_count_def meal_total_def
        round_double_def check_item_accepted_meal [OF dated]
        check_item_accepted_meal [OF undated [of example_env, unfolded t1]])
  have two: "check_compliance (example_env\<lparr>today := day2\<rparr>)
     (JList [JObj (meal_item (Finite 50) day1), JObj (meal_item (Finite 50) day1), JObj (meal_item (Finite 50) day1),
             JObj (undated_meal_item (Finite 50))]) =
     Inr \<lparr>compliant_items = [compliant_verdict (meal_item (Finite 50) day1),
            compliant_verdict (meal_item (Finite 50) day1), compliant_verdict (meal_item (Finite 50) day1),
            compliant_verdict (undated_meal_item (Finite 50))],
          non_compliant_items = [],
          compliant_total_amount = Finite 200,
          item_count = 4, compliant_count = 4, non_compliant_count = 0\<rparr>"
    by (simp add: check_compliance_def init_state_def meal_count_def meal_total_def ne
        round_double_def check_item_accepted_meal [OF dated]
        check_item_accepted_meal [OF undated [of "example_env\<lparr>today := day2\<rparr>", unfolded t2]])
  from one two show ?thesis by (intro conjI)
qed

text \<open>
  The four dated meals give the same result on 2024-01-01 and on 2024-01-02, and the lists
  of that result are the verdicts in submission order.
\<close>

theorem result_follows_order_and_date_witness:
  "list_all dated four_dated_meals \<and>
   check_compliance example_env (JList four_dated_meals) = Inr four_dated_meals_result \<and>
   check_compliance (example_env\<lparr>today := day2\<rparr>) (JList four_dated_meals) =
     Inr four_dated_meals_result \<and>
   (\<exists>vs as. map (\<lambda>v. JObj (v_expense v)) vs = four_dated_meals \<and>
      compliant_items four_dated_meals_result = filter v_compliant vs \<and>
      non_compliant_items four_dated_meals_result = filter (\<lambda>v. \<not> v_compliant v) vs \<and>
      map (\<lambda>v. expense_amount example_env (v_expense v))
        (compliant_items four_dated_meals_result) = map Inr as \<and>
      compliant_total_amount four_dated_meals_result = py_sum example_env as \<and>
      item_count four_dated_meals_result = length four_dated_meals \<and>
      compliant_count four_dated_meals_result =
        length (compliant_items four_dated_meals_result) \<and>
      non_compliant_count four_dated_meals_result =
        length (non_compliant_items four_dated_meals_result))"
proof -
  have d: "list_all dated four_dated_meals"
    by (simp add: four_dated_meals_def dated_def meal_item_def key_distinct)
  have f: "str_to_float (example_env\<lparr>today := day2\<rparr>) = str_to_float example_env"
    "nearest_double (example_env\<lparr>today := day2\<rparr>) = nearest_double example_env"
    by simp_all
  have m: "accepted_meal example_env (meal_item (Finite 50) day1) (KStr day1) (Finite 50)"
    by (simp add: accepted_meal_def meal_item_fields)
  have one: "check_compliance example_env (JList four_dated_meals) = Inr four_dated_meals_result"
    by (simp add: four_dated_meals_def four_dated_meals_result_def check_compliance_def
        init_state_def meal_count_def meal_total_def round_double_def
        check_item_accepted_meal [OF m])
  note th = result_follows_order_and_date
    [of "example_env\<lparr>today := day2\<rparr>" example_env four_dated_meals four_dated_meals_result]
  have "str_to_float (example_env\<lparr>today := day2\<rparr>) = str_to_float example_env \<and>
      nearest_double (example_env\<lparr>today := day2\<rparr>) = nearest_double example_env \<and>
      (today (example_env\<lparr>today := day2\<rparr>) = today example_env \<or>
       list_all dated four_dated_meals)"
    using d f by (intro conjI disjI2)
  from mp [OF conjunct1 [OF th] this] one
  have two: "check_compliance (example_env\<lparr>today := day2\<rparr>) (JList four_dated_meals) =
      Inr four_dated_meals_result"
    by (rule trans)
  from d one two mp [OF conjunct2 [OF th] one] show ?thesis
    by (intro conjI)
qed

text \<open>
  C10. Checking an empty list of expenses raises nothing and returns the result with both
  lists empty, a total of 0 and the three counts 0.
\<close>

theorem check_compliance_empty:
  "check_compliance E (JList []) =
     Inr \<lparr>compliant_items = [], non_compliant_items = [], compliant_total_amount = Finite 0,
          item_count = 0, compliant_count = 0, non_compliant_count = 0\<rparr>"
  by (simp add: check_compliance_def init_state_def)


section \<open>Properties of the taxi agent\<close>

subsection \<open>Parsing\<close>











lemmas time_defs =
  is_valid_pickup_time_def formats_def strptime_def alternatives_H_def alternatives_M_def
  decimal_value_def decimal_starts_def time_le_def night_start_def morning_end_def



subsection \<open>Location\<close>

lemma valid_loop_iff: "valid_loop vs loc \<longleftrightarrow> (\<exists>v\<in>set vs. sublist v loc)"
  by (induction vs) auto

lemmas location_defs =
  is_valid_pickup_location_def VALID_PICKUP_LOCATIONS_def INVALID_LOCATION_KEYWORDS_def
  capital_tower_def sublist_Cons_right

text \<open>
  C5. A pickup location is accepted exactly when it contains an entry of the allow-list;
  every other string is rejected, whether or not it contains a keyword of the deny-list.
  The building name and the building name followed by \<open>bei men\<close> are accepted;
  \<open>zhong guan cun\<close> alone, \<open>wang jing\<close> and the unlisted \<open>shang hai hong qiao\<close> are
  rejected.
\<close>

theorem pickup_location_allow_list:
  "(is_valid_pickup_location loc \<longleftrightarrow> (\<exists>v\<in>set VALID_PICKUP_LOCATIONS. sublist v loc)) \<and>
   is_valid_pickup_location capital_tower \<and>
   is_valid_pickup_location (capital_tower @ [21271, 38376]) \<and>
   \<not> is_valid_pickup_location [20013, 20851, 26449] \<and>
   \<not> is_valid_pickup_location [26395, 20140] \<and>
   \<not> is_valid_pickup_location [19978, 28023, 34425, 26725]"
proof -
  have "is_valid_pickup_location loc \<longleftrightarrow> (\<exists>v\<in>set VALID_PICKUP_LOCATIONS. sublist v loc)"
    by (simp add: is_valid_pickup_location_def valid_loop_iff)
  moreover have "is_valid_pickup_location capital_tower"
    by (simp add: location_defs)
  moreover have "is_valid_pickup_location (capital_tower @ [21271, 38376])"
    by (simp add: location_defs)
  moreover have "\<not> is_valid_pickup_location [20013, 20851, 26449]"
    by (simp add: location_defs)
  moreover have "\<not> is_valid_pickup_location [26395, 20140]"
    by (simp add: location_defs)
  moreover have "\<not> is_valid_pickup_location [19978, 28023, 34425, 26725]"
    by (simp add: location_defs)
  ultimately show ?thesis by blast
qed

subsection \<open>The ledger\<close>

lemma str_nat_not_Nil: "str_nat n \<noteq> []"
  by (subst str_nat.simps) simp

lemma str_nat_inj: "str_nat n = str_nat m \<Longrightarrow> n = m"
proof (induction n arbitrary: m rule: str_nat.induct)
  case (1 n)
  show ?case
  proof (cases "n < 10")
    case True
    show ?thesis
    proof (cases "m < 10")
      case True
      with \<open>n < 10\<close> "1.prems" show ?thesis
        by (simp add: str_nat.simps [of n] str_nat.simps [of m])
    next
      case False
      with \<open>n < 10\<close> "1.prems" str_nat_not_Nil [of "m div 10"] show ?thesis
        by (simp add: str_nat.simps [of n] str_nat.simps [of m] Cons_eq_append_conv)
    qed
  next
    case False
    show ?thesis
    proof (cases "m < 10")
      case True
      with \<open>\<not> n < 10\<close> "1.prems" str_nat_not_Nil [of "n div 10"] show ?thesis
        by (simp add: str_nat.simps [of n] str_nat.simps [of m] append_eq_Cons_conv)
    next
      case mf: False
      with False "1.prems" have
        "str_nat (n div 10) = str_nat (m div 10)" and "n mod 10 = m mod 10"
        by (simp_all add: str_nat.simps [of n] str_nat.simps [of m])
      with "1.IH" [OF False] have "n div 10 = m div 10" by simp
      with \<open>n mod 10 = m mod 10\<close> show ?thesis
        by (metis div_mult_mod_eq)
    qed
  qed
qed

lemma create_request_id:
  "f_request_id (fst (create_taxi_request_form n ids a b c d)) = request_id_prefix @ str_nat n"
  by (simp add: create_taxi_request_form_def Let_def)

lemma create_ledger:
  "snd (create_taxi_request_form n ids a b c d) = insert (request_id_prefix @ str_nat n) ids"
  by (simp add: create_taxi_request_form_def Let_def)

lemma run_creates_ids:
  "map f_request_id (fst (run_creates calls ids)) =
     map (\<lambda>call. request_id_prefix @ str_nat (fst call)) calls \<and>
   snd (run_creates calls ids) = ids \<union> set (map f_request_id (fst (run_creates calls ids)))"
proof (induction calls arbitrary: ids)
  case Nil
  show ?case by simp
next
  case (Cons call calls)
  obtain n a b c d where call: "call = (n, a, b, c, d)"
    by (cases call) auto
  obtain f ids' where cr: "create_taxi_request_form n ids a b c d = (f, ids')"
    by (cases "create_taxi_request_form n ids a b c d") auto
  obtain fs ids'' where rc: "run_creates calls ids' = (fs, ids'')"
    by (cases "run_creates calls ids'") auto
  from cr create_request_id [of n ids a b c d] create_ledger [of n ids a b c d]
  have f: "f_request_id f = request_id_prefix @ str_nat n" and
    ids': "ids' = insert (request_id_prefix @ str_nat n) ids"
    by simp_all
  have "map f_request_id fs = map (\<lambda>call. request_id_prefix @ str_nat (fst call)) calls"
    using conjunct1 [OF Cons.IH [of ids']] rc by simp
  moreover have "ids'' = ids' \<union> set (map f_request_id fs)"
    using conjunct2 [OF Cons.IH [of ids']] rc by simp
  ultimately show ?case
    using call cr rc f ids' by auto
qed


text \<open>
  C8, as the code has it. The request id of a form is \<open>request_id_\<close> followed by the
  digits of the number drawn, and it is in the set as soon as the call returns. Nothing
  compares it with the ids already there: the ids of a lifetime are pairwise distinct
  exactly when the numbers drawn are, and the set at the end holds exactly the ids
  returned.
\<close>

theorem created_ids_follow_draws:
  "f_request_id (fst (create_taxi_request_form n ids a b c d)) = request_id_prefix @ str_nat n \<and>
   f_request_id (fst (create_taxi_request_form n ids a b c d))
     \<in> snd (create_taxi_request_form n ids a b c d) \<and>
   distinct (map f_request_id (fst (run_creates calls {}))) = distinct (map fst calls) \<and>
   snd (run_creates calls {}) = set (map f_request_id (fst (run_creates calls {})))"
proof -
  have inj: "inj (\<lambda>n. request_id_prefix @ str_nat n)"
    by (rule injI) (simp add: str_nat_inj)
  have "map f_request_id (fst (run_creates calls {})) =
          map (\<lambda>n. request_id_prefix @ str_nat n) (map fst calls)"
    using conjunct1 [OF run_creates_ids [of calls "{}"]] by (simp add: comp_def)
  then have "distinct (map f_request_id (fst (run_creates calls {}))) = distinct (map fst calls)"
    by (simp add: distinct_map inj_on_subset [OF inj] del: map_map)
  moreover have
    "snd (run_creates calls {}) = set (map f_request_id (fst (run_creates calls {})))"
    using conjunct2 [OF run_creates_ids [of calls "{}"]] by simp
  ultimately show ?thesis
    by (simp add: create_request_id create_ledger)
qed

text \<open>
  The claim as stated fails: two calls that draw the same number return the same id.
\<close>

theorem created_ids_collide:
  "\<not> distinct (map f_request_id (fst (run_creates
      [(1234567, None, None, None, None), (1234567, None, None, None, None)] {})))"
  by (simp add: create_taxi_request_form_def Let_def)

subsection \<open>Reimbursement\<close>

text \<open>
  C6. \<open>reimburse_taxi\<close> looks the request id up first, then checks the location, then the
  time. The first check that fails decides the result, which carries that one reason.
  For an id that no call of the form creation has returned, the result is the rejection
  for an invalid request id, whatever the location and the time are.
\<close>

theorem reimburse_taxi_order:
  "(rid \<notin> ids \<longrightarrow> reimburse_taxi ids rid loc tm = Rejected rid Invalid_request_id) \<and>
   (rid \<in> ids \<and> \<not> is_valid_pickup_location loc \<longrightarrow>
      reimburse_taxi ids rid loc tm = Rejected rid (Location_not_allowed loc)) \<and>
   (rid \<in> ids \<and> is_valid_pickup_location loc \<and> \<not> fst (is_valid_pickup_time tm) \<longrightarrow>
      reimburse_taxi ids rid loc tm =
        Rejected rid (Time_rejected (snd (is_valid_pickup_time tm)))) \<and>
   (rid \<in> ids \<and> is_valid_pickup_location loc \<and> fst (is_valid_pickup_time tm) \<longrightarrow>
      reimburse_taxi ids rid loc tm = Approved rid) \<and>
   (rid \<notin> set (map f_request_id (fst (run_creates calls {}))) \<longrightarrow>
      reimburse_taxi (snd (run_creates calls {})) rid loc tm = Rejected rid Invalid_request_id)"
proof -
  have "snd (run_creates calls {}) = set (map f_request_id (fst (run_creates calls {})))"
    using conjunct2 [OF run_creates_ids [of calls "{}"]] by simp
  then show ?thesis
    by (simp add: reimburse_taxi_def split: prod.splits)
qed

text \<open>
  At concrete inputs, with the set left by one creation that drew 1234567: an unknown id
  with a good location and time, then the known id with a bad location (\<open>wang jing\<close>),
  with a good location and the time 12:00, and with a good location and the time 23:30.
\<close>

theorem reimburse_taxi_order_witness:
  "reimburse_taxi (snd (run_creates [(1234567, None, None, None, None)] {}))
     (request_id_prefix @ str_nat 7654321) capital_tower [50, 51, 58, 51, 48] =
     Rejected (request_id_prefix @ str_nat 7654321) Invalid_request_id \<and>
   reimburse_taxi {request_id_prefix @ str_nat 1234567}
     (request_id_prefix @ str_nat 1234567) [26395, 20140] [50, 51, 58, 51, 48] =
     Rejected (request_id_prefix @ str_nat 1234567) (Location_not_allowed [26395, 20140]) \<and>
   reimburse_taxi {request_id_prefix @ str_nat 1234567}
     (request_id_prefix @ str_nat 1234567) capital_tower [49, 50, 58, 48, 48] =
     Rejected (request_id_prefix @ str_nat 1234567)
       (Time_rejected (Outside_window [49, 50, 58, 48, 48])) \<and>
   reimburse_taxi {request_id_prefix @ str_nat 1234567}
     (request_id_prefix @ str_nat 1234567) capital_tower [50, 51, 58, 51, 48] =
     Approved (request_id_prefix @ str_nat 1234567)"
proof -
  let ?known = "request_id_prefix @ str_nat 1234567"
  let ?unknown = "request_id_prefix @ str_nat 7654321"
  let ?calls = "[(1234567, None, None, None, None)] :: create_call list"
  have fresh: "?unknown \<notin> set (map f_request_id (fst (run_creates ?calls {})))"
    using str_nat_inj [of 7654321 1234567]
    by (auto simp: create_taxi_request_form_def Let_def)
  have bad_loc: "\<not> is_valid_pickup_location [26395, 20140]"
    by (simp add: location_defs)
  have good_loc: "is_valid_pickup_location capital_tower"
    by (simp add: location_defs)
  have noon: "is_valid_pickup_time [49, 50, 58, 48, 48] =
      (False, Outside_window [49, 50, 58, 48, 48])"
    by (simp add: time_defs)
  have night: "is_valid_pickup_time [50, 51, 58, 51, 48] = (True, No_message)"
    by (simp add: time_defs)
  from fresh bad_loc good_loc noon night
    reimburse_taxi_order [of ?unknown "{}" capital_tower "[50, 51, 58, 51, 48]" ?calls]
    reimburse_taxi_order [of ?known "{?known}" "[26395, 20140]" "[50, 51, 58, 51, 48]" "[]"]
    reimburse_taxi_order [of ?known "{?known}" capital_tower "[49, 50, 58, 48, 48]" "[]"]
    reimburse_taxi_order [of ?known "{?known}" capital_tower "[50, 51, 58, 51, 48]" "[]"]
  show ?thesis by simp
qed

end
